theory Spec2Isabelle
  imports Complex_Main
begin

section \<open>Strings\<close>

text \<open>
  A Python \<open>str\<close> is a sequence of Unicode code points, and \<open>len\<close>, \<open>strip\<close> and the
  \<open>re\<close> module all work on code points.  A string is therefore a list of code points
  (natural numbers); \<open>str\<close> reads an ASCII literal.
\<close>

type_synonym pystr = "nat list"

definition str :: "string \<Rightarrow> pystr" where
  "str s = map of_char s"

text \<open>\<open>str.isspace\<close>: the code points Python treats as whitespace.\<close>

definition isspace :: "nat \<Rightarrow> bool" where
  "isspace c \<longleftrightarrow>
     (9 \<le> c \<and> c \<le> 13) \<or> (28 \<le> c \<and> c \<le> 32) \<or> c = 133 \<or> c = 160 \<or> c = 5760 \<or>
     (8192 \<le> c \<and> c \<le> 8202) \<or> c = 8232 \<or> c = 8233 \<or> c = 8239 \<or> c = 8287 \<or> c = 12288"

text \<open>\<open>s.strip()\<close>: leading and trailing whitespace removed.\<close>

definition strip :: "pystr \<Rightarrow> pystr" where
  "strip s = rev (dropWhile isspace (rev (dropWhile isspace s)))"

text \<open>\<open>sep.join(xs)\<close>.\<close>

fun join :: "pystr \<Rightarrow> pystr list \<Rightarrow> pystr" where
  "join sep [] = []"
| "join sep [x] = x"
| "join sep (x # y # ys) = x @ sep @ join sep (y # ys)"

text \<open>\<open>os.path.join(a, b)\<close> on a POSIX system.\<close>

definition path_join :: "pystr \<Rightarrow> pystr \<Rightarrow> pystr" where
  "path_join a b =
     (if take 1 b = str ''/'' then b
      else if a = [] \<or> last a = 47 then a @ b
      else a @ str ''/'' @ b)"

section \<open>Errors\<close>

text \<open>
  Every exception is a value.  \<open>ValueError\<close> and \<open>Exception\<close> are the ones the program
  raises itself, with their messages; \<open>StopIteration\<close> comes from \<open>next\<close> on an exhausted
  iterator; \<open>Raised\<close> is any exception raised by a library or remote service.  All of
  them are instances of \<open>Exception\<close>, which is what the handlers of the program catch;
  \<open>KeyboardInterrupt\<close> and \<open>SystemExit\<close> are not modelled.
\<close>

datatype error = ValueError string | Exception string | StopIteration | Raised string

section \<open>extract_video_id\<close>

text \<open>The character class \<open>[0-9A-Za-z_-]\<close>.\<close>

definition idchar :: "nat \<Rightarrow> bool" where
  "idchar c \<longleftrightarrow>
     (48 \<le> c \<and> c \<le> 57) \<or> (65 \<le> c \<and> c \<le> 90) \<or> (97 \<le> c \<and> c \<le> 122) \<or> c = 95 \<or> c = 45"

text \<open>The capture group \<open>([0-9A-Za-z_-]{11})\<close> matched at the start of \<open>s\<close>.\<close>

definition id_group :: "pystr \<Rightarrow> pystr option" where
  "id_group s =
     (if 11 \<le> length s \<and> list_all idchar (take 11 s) then Some (take 11 s) else None)"

text \<open>
  \<open>(?:a1|a2|...)([0-9A-Za-z_-]{11})\<close> matched at the start of \<open>s\<close>: the alternatives are
  tried in order, and the next one is tried when the group fails after an alternative.
  The result is group 1.
\<close>

fun match_here :: "pystr list \<Rightarrow> pystr \<Rightarrow> pystr option" where
  "match_here [] s = None"
| "match_here (a # as) s =
     (if take (length a) s = a
      then (case id_group (drop (length a) s) of
              Some g \<Rightarrow> Some g
            | None \<Rightarrow> match_here as s)
      else match_here as s)"

text \<open>\<open>re.search\<close> scans the start positions from the left and keeps the first match.\<close>

fun search_from :: "pystr list \<Rightarrow> pystr \<Rightarrow> pystr option" where
  "search_from alts [] = match_here alts []"
| "search_from alts (c # cs) =
     (case match_here alts (c # cs) of
        Some g \<Rightarrow> Some g
      | None \<Rightarrow> search_from alts cs)"

text \<open>
  The two forms of pattern in the list: a non-capturing alternation of literals followed
  by the group, searched anywhere in the string, and the group between \<open>^\<close> and \<open>$\<close>.
  The first pattern ends in \<open>.*\<close>, which matches any run of characters other than a
  newline, the empty one included: it never fails and does not change group 1, so it
  has no counterpart here.  Without \<open>re.MULTILINE\<close>, \<open>$\<close> matches at the end of the
  string and before a newline that ends the string.
\<close>

datatype pattern = Anywhere "pystr list" | Whole

fun re_search :: "pattern \<Rightarrow> pystr \<Rightarrow> pystr option" where
  "re_search (Anywhere alts) s = search_from alts s"
| "re_search Whole s =
     (case id_group s of
        Some g \<Rightarrow> (if drop 11 s = [] \<or> drop 11 s = [10] then Some g else None)
      | None \<Rightarrow> None)"

definition patterns :: "pattern list" where
  "patterns =
     [Anywhere [str ''v='', str ''/''],
      Anywhere [str ''embed/''],
      Anywhere [str ''youtu.be/''],
      Anywhere [str ''shorts/''],
      Whole]"

text \<open>The loop over the patterns: the first one that matches returns.\<close>

fun first_match :: "pattern list \<Rightarrow> pystr \<Rightarrow> pystr option" where
  "first_match [] s = None"
| "first_match (p # ps) s =
     (case re_search p s of
        Some g \<Rightarrow> Some g
      | None \<Rightarrow> first_match ps s)"

definition extract_video_id :: "pystr \<Rightarrow> error + pystr" where
  "extract_video_id youtube_url =
     (case first_match patterns (strip youtube_url) of
        Some g \<Rightarrow> Inr g
      | None \<Rightarrow> Inl (ValueError ''Could not extract video ID from URL''))"

section \<open>The services outside the program\<close>

text \<open>
  The captions library, the video library, the encoder, the speech-to-text and the
  text-generation backends and the text splitter are not part of the program.  Each is
  a field of an environment, giving the outcome of the call the program makes: a value
  or the exception raised.
\<close>

text \<open>One caption segment, as \<open>fetch\<close> returns it: \<open>part['text']\<close>.\<close>

record part =
  part_text :: pystr

text \<open>A caption track of a listing.\<close>

record transcript =
  is_generated :: bool
  language_code :: pystr
  fetch :: "error + part list"

text \<open>An audio stream; \<open>download\<close> is the exception its download raises, if any.\<close>

record stream =
  download :: "error option"

text \<open>The request of \<open>chat.completions.create\<close>; a message is a role and a content.\<close>

record request =
  model :: pystr
  messages :: "(pystr \<times> pystr) list"
  temperature :: rat
  max_tokens :: nat

text \<open>
  \<open>list_transcripts\<close>: the listing for a video id, in the order the source gives the
  tracks.  \<open>getenv_TMPDIR\<close>: the environment variable.  \<open>makedirs\<close>: the exception of
  \<open>os.makedirs\<close>, if any.  \<open>first_audio_stream\<close>: \<open>YouTube(url).streams.filter(...).first()\<close>,
  which raises, or is \<open>None\<close>, or is a stream.  \<open>ffmpeg\<close>: whether the encoder, run on the
  input and output paths, leaves an output file.  \<open>transcriptions_create\<close>: the
  speech-to-text call on the file at a path.  \<open>split_text\<close>: the splitter, built with a
  chunk size and an overlap, applied to the transcript (which \<open>main\<close> may pass as \<open>None\<close>).
  \<open>completions_create\<close>: the text-generation call, up to \<open>choices[0].message.content\<close>.
\<close>

record env =
  list_transcripts :: "pystr \<Rightarrow> error + transcript list"
  getenv_TMPDIR :: "pystr option"
  makedirs :: "pystr \<Rightarrow> error option"
  first_audio_stream :: "pystr \<Rightarrow> error + stream option"
  ffmpeg :: "pystr \<Rightarrow> pystr \<Rightarrow> bool"
  transcriptions_create :: "pystr \<Rightarrow> error + pystr"
  split_text :: "nat \<Rightarrow> nat \<Rightarrow> pystr option \<Rightarrow> error + pystr list"
  completions_create :: "request \<Rightarrow> error + pystr"

text \<open>
  What a run changes and what it calls: the files that exist in scratch storage, and
  the calls made, in order.  The status messages (\<open>st.info\<close>, \<open>st.success\<close>,
  \<open>st.warning\<close>, \<open>st.error\<close>) of \<open>get_transcript\<close>, \<open>download_audio\<close> and the summarizer
  change no control flow and are left out; what \<open>main\<close> shows is recorded.
\<close>

datatype event =
    DownloadAudio pystr
  | Ffmpeg pystr pystr
  | Transcribe pystr
  | Chat request
  | ShowMarkdown "pystr option"
  | ShowError error
  | ShowWarning

record world =
  files :: "pystr set"
  events :: "event list"

definition emit :: "event \<Rightarrow> world \<Rightarrow> world" where
  "emit e w = w\<lparr>events := events w @ [e]\<rparr>"

text \<open>\<open>if os.path.exists(p): os.remove(p)\<close>.\<close>

definition remove_if_exists :: "pystr \<Rightarrow> world \<Rightarrow> world" where
  "remove_if_exists p w = (if p \<in> files w then w\<lparr>files := files w - {p}\<rparr> else w)"

section \<open>download_audio\<close>

text \<open>
  The body of the \<open>try\<close>.  The stream's download writes the file it is asked for,
  \<open>os.path.join(output_path, filename)\<close>, and returns that path; a download that raises
  leaves the files as they were.  \<open>os.system\<close> does not raise.
\<close>

definition download_audio_body :: "env \<Rightarrow> pystr \<Rightarrow> world \<Rightarrow> (error + pystr) \<times> world" where
  "download_audio_body env youtube_url w =
     (case extract_video_id youtube_url of
        Inl e \<Rightarrow> (Inl e, w)
      | Inr video_id \<Rightarrow>
          let temp_dir = (case getenv_TMPDIR env of
                            Some d \<Rightarrow> d
                          | None \<Rightarrow> str ''/tmp/youtube_audio'')
          in (case makedirs env temp_dir of
                Some e \<Rightarrow> (Inl e, w)
              | None \<Rightarrow>
                  (case first_audio_stream env youtube_url of
                     Inl e \<Rightarrow> (Inl e, w)
                   | Inr None \<Rightarrow> (Inl (Exception ''No audio stream found''), w)
                   | Inr (Some audio_stream) \<Rightarrow>
                       let output_file = path_join temp_dir (video_id @ str ''.mp3'')
                       in (case download audio_stream of
                             Some e \<Rightarrow> (Inl e, w)
                           | None \<Rightarrow>
                               let downloaded_file =
                                     path_join temp_dir (video_id @ str ''_temp.mp4'');
                                   w1 = w\<lparr>files := insert downloaded_file (files w)\<rparr>;
                                   w2 = emit (Ffmpeg downloaded_file output_file)
                                          (if ffmpeg env downloaded_file output_file
                                           then w1\<lparr>files := insert output_file (files w1)\<rparr>
                                           else w1);
                                   w3 = remove_if_exists downloaded_file w2
                               in if output_file \<in> files w3
                                  then (Inr output_file, w3)
                                  else (Inl (Exception ''Audio conversion failed''), w3)))))"

text \<open>The \<open>except Exception\<close> around the body returns \<open>None\<close>.\<close>

definition download_audio :: "env \<Rightarrow> pystr \<Rightarrow> world \<Rightarrow> pystr option \<times> world" where
  "download_audio env youtube_url w =
     (case download_audio_body env youtube_url (emit (DownloadAudio youtube_url) w) of
        (Inl e, w') \<Rightarrow> (None, w')
      | (Inr output_file, w') \<Rightarrow> (Some output_file, w'))"

section \<open>get_transcript\<close>

text \<open>
  Modelled from the spec: the captions library is outside the repository.  Called
  without arguments, as the program calls it, \<open>find_manually_created_transcript\<close> is taken
  to give the first manually created track of the listing and to raise when the listing
  has none ("attempts to select a manually authored track").
\<close>

definition find_manually_created_transcript :: "transcript list \<Rightarrow> error + transcript" where
  "find_manually_created_transcript transcript_list =
     (case filter (\<lambda>t. \<not> is_generated t) transcript_list of
        [] \<Rightarrow> Inl (Raised ''NoTranscriptFound'')
      | t # _ \<Rightarrow> Inr t)"

text \<open>\<open>next(iter(xs))\<close>.\<close>

definition next_iter :: "'a list \<Rightarrow> error + 'a" where
  "next_iter xs = (case xs of [] \<Rightarrow> Inl StopIteration | x # _ \<Rightarrow> Inr x)"

text \<open>The innermost \<open>try\<close> with its bare \<open>except\<close>: the choice of the track.\<close>

definition select_transcript :: "transcript list \<Rightarrow> error + transcript" where
  "select_transcript transcript_list =
     (case find_manually_created_transcript transcript_list of
        Inr t \<Rightarrow> Inr t
      | Inl e \<Rightarrow> next_iter transcript_list)"

text \<open>The body of the \<open>try\<close> that uses the captions library.\<close>

definition fetch_captions :: "env \<Rightarrow> pystr \<Rightarrow> error + pystr \<times> pystr" where
  "fetch_captions env video_id =
     (case list_transcripts env video_id of
        Inl e \<Rightarrow> Inl e
      | Inr transcript_list \<Rightarrow>
          (case select_transcript transcript_list of
             Inl e \<Rightarrow> Inl e
           | Inr t \<Rightarrow>
               (case fetch t of
                  Inl e \<Rightarrow> Inl e
                | Inr parts \<Rightarrow> Inr (join (str '' '') (map part_text parts), language_code t))))"

text \<open>
  What follows the download in the fallback: the test on \<open>audio_file\<close>, the
  transcription with its \<open>finally\<close>, and the \<open>except Exception\<close> that returns
  \<open>(None, None)\<close>.  Opening a file that exists succeeds.
\<close>

definition transcribe_audio ::
  "env \<Rightarrow> pystr option \<Rightarrow> world \<Rightarrow> (pystr option \<times> pystr option) \<times> world" where
  "transcribe_audio env audio_file w =
     (case audio_file of
        None \<Rightarrow> ((None, None), w)
      | Some p \<Rightarrow>
          if p \<noteq> [] \<and> p \<in> files w
          then let w1 = emit (Transcribe p) w;
                   r = transcriptions_create env p;
                   w2 = remove_if_exists p w1
               in (case r of
                     Inr t \<Rightarrow> ((Some t, Some (str ''en'')), w2)
                   | Inl e \<Rightarrow> ((None, None), w2))
          else ((None, None), w))"

definition whisper_fallback ::
  "env \<Rightarrow> pystr \<Rightarrow> world \<Rightarrow> (pystr option \<times> pystr option) \<times> world" where
  "whisper_fallback env youtube_url w =
     (case download_audio env youtube_url w of
        (audio_file, w1) \<Rightarrow> transcribe_audio env audio_file w1)"

definition get_transcript ::
  "env \<Rightarrow> pystr \<Rightarrow> world \<Rightarrow> (pystr option \<times> pystr option) \<times> world" where
  "get_transcript env youtube_url w =
     (case extract_video_id youtube_url of
        Inl e \<Rightarrow> ((None, None), w)
      | Inr video_id \<Rightarrow>
          (case fetch_captions env video_id of
             Inr (full_transcript, lang) \<Rightarrow> ((Some full_transcript, Some lang), w)
           | Inl e \<Rightarrow> whisper_fallback env youtube_url w))"

section \<open>The summarizer\<close>

record prompts =
  p_title :: pystr
  p_overview :: pystr
  p_key_points :: pystr
  p_takeaways :: pystr
  p_context :: pystr

definition language_prompts :: "(pystr \<times> prompts) list" where
  "language_prompts =
     [(str ''en'',
       \<lparr>p_title = str ''TITLE'',
        p_overview = str ''OVERVIEW'',
        p_key_points = str ''KEY POINTS'',
        p_takeaways = str ''MAIN TAKEAWAYS'',
        p_context = str ''CONTEXT & IMPLICATIONS''\<rparr>),
      (str ''de'',
       \<lparr>p_title = str ''TITEL'',
        p_overview = 220 # str ''BERBLICK'',
        p_key_points = str ''KERNPUNKTE'',
        p_takeaways = str ''HAUPTERKENNTNISSE'',
        p_context = str ''KONTEXT & AUSWIRKUNGEN''\<rparr>)]"

text \<open>The two f-strings; their lines are joined by newlines (code point 10).\<close>

definition system_prompt :: "pystr \<Rightarrow> pystr" where
  "system_prompt target_language =
     join [10]
       [str ''You are an expert content analyst and summarizer. Create a comprehensive '',
        str ''    summary in '' @ target_language
          @ str ''. Ensure all content is fully translated and culturally adapted '',
        str ''    to the target language.'']"

definition user_prompt :: "prompts \<Rightarrow> pystr \<Rightarrow> pystr \<Rightarrow> pystr" where
  "user_prompt ps text_to_summarize target_language =
     join [10]
       [str ''Please provide a detailed summary of the following content in ''
          @ target_language @ str ''. '',
        str ''    Structure your response as follows:'',
        [],
        str ''    '' @ [0x1F3AF] @ str '' '' @ p_title ps @ str '': Create a descriptive title'',
        [],
        str ''    '' @ [0x1F4DD] @ str '' '' @ p_overview ps @ str '' (2-3 sentences):'',
        str ''    - Provide a brief context and main purpose'',
        [],
        str ''    '' @ [0x1F511] @ str '' '' @ p_key_points ps @ str '':'',
        str ''    - Extract and explain the main arguments'',
        str ''    - Include specific examples'',
        str ''    - Highlight unique perspectives'',
        [],
        str ''    '' @ [0x1F4A1] @ str '' '' @ p_takeaways ps @ str '':'',
        str ''    - List 3-5 practical insights'',
        str ''    - Explain their significance'',
        [],
        str ''    '' @ [0x1F504] @ str '' '' @ p_context ps @ str '':'',
        str ''    - Broader context discussion'',
        str ''    - Future implications'',
        [],
        str ''    Text to summarize: '' @ text_to_summarize,
        [],
        str ''    Ensure the summary is comprehensive enough for someone who hasn'' @ [39]
          @ str ''t seen the original content.'']"

definition create_summary_prompt :: "pystr \<Rightarrow> pystr \<Rightarrow> pystr \<times> pystr" where
  "create_summary_prompt text_to_summarize target_language =
     (let ps = (case map_of language_prompts target_language of
                  Some p \<Rightarrow> p
                | None \<Rightarrow> the (map_of language_prompts (str ''en'')))
      in (system_prompt target_language, user_prompt ps text_to_summarize target_language))"

text \<open>
  \<open>Inl\<close> is an exception that leaves the function: the splitter is called outside the
  \<open>try\<close>.  An exception of the backend call is caught and the result is \<open>None\<close>.
\<close>

definition summarize_with_langchain_and_openai ::
  "env \<Rightarrow> pystr option \<Rightarrow> pystr \<Rightarrow> pystr \<Rightarrow> world \<Rightarrow> (error + pystr option) \<times> world" where
  "summarize_with_langchain_and_openai env transcript lang model_name w =
     (case split_text env 2000 200 transcript of
        Inl e \<Rightarrow> (Inl e, w)
      | Inr texts \<Rightarrow>
          let text_to_summarize = join (str '' '') (take 4 texts);
              sp = create_summary_prompt text_to_summarize lang;
              req = \<lparr>model = model_name,
                     messages = [(str ''system'', fst sp), (str ''user'', snd sp)],
                     temperature = 7 / 10,
                     max_tokens = 4000\<rparr>;
              w1 = emit (Chat req) w
          in (case completions_create env req of
                Inr content \<Rightarrow> (Inr (Some content), w1)
              | Inl e \<Rightarrow> (Inr None, w1)))"

section \<open>main\<close>

text \<open>
  What the button does with the link and the code of the chosen language: the
  \<open>if link\<close>, and the \<open>try\<close> whose \<open>except Exception\<close> shows the error.
\<close>

definition generate_summary :: "env \<Rightarrow> pystr \<Rightarrow> pystr \<Rightarrow> world \<Rightarrow> world" where
  "generate_summary env link target_language_code w =
     (if link \<noteq> []
      then (case get_transcript env link w of
              ((transcript, _), w1) \<Rightarrow>
                (case summarize_with_langchain_and_openai env transcript target_language_code
                        (str ''llama-3.1-8b-instant'') w1 of
                   (Inl e, w2) \<Rightarrow> emit (ShowError e) w2
                 | (Inr summary, w2) \<Rightarrow> emit (ShowMarkdown summary) w2))
      else emit ShowWarning w)"

section \<open>Vocabulary of the properties\<close>

text \<open>
  An id the program accepts: eleven characters of the class \<open>[0-9A-Za-z_-]\<close>.
\<close>

definition valid_id :: "pystr \<Rightarrow> bool" where
  "valid_id g \<longleftrightarrow> length g = 11 \<and> list_all idchar g"

text \<open>
  The id alphabet as the specification words it: alphanumeric, \<open>.\<close>, \<open>_\<close> and \<open>-\<close>.
\<close>

definition spec_idchar :: "nat \<Rightarrow> bool" where
  "spec_idchar c \<longleftrightarrow>
     (48 \<le> c \<and> c \<le> 57) \<or> (65 \<le> c \<and> c \<le> 90) \<or> (97 \<le> c \<and> c \<le> 122) \<or>
     c = 46 \<or> c = 95 \<or> c = 45"

text \<open>
  The five URL shapes the patterns are written for, with an id in them: the standard
  watch URL, the embed URL, the short URL, the shorts URL, and the id alone.
\<close>

definition url_prefixes :: "pystr list" where
  "url_prefixes =
     [str ''https://www.youtube.com/watch?v='',
      str ''https://www.youtube.com/embed/'',
      str ''https://youtu.be/'',
      str ''https://www.youtube.com/shorts/'']"

definition url_shapes :: "pystr \<Rightarrow> pystr list" where
  "url_shapes vid = map (\<lambda>p. p @ vid) url_prefixes @ [vid]"

text \<open>
  \<open>occurs_at alts s pre g\<close>: after the prefix \<open>pre\<close>, the string \<open>s\<close> has one of the
  literals \<open>alts\<close> and then the accepted id \<open>g\<close>.  \<open>id_alts\<close> are the literals of the first
  pattern, \<open>all_alts\<close> those of the first four.
\<close>

definition occurs_at :: "pystr list \<Rightarrow> pystr \<Rightarrow> pystr \<Rightarrow> pystr \<Rightarrow> bool" where
  "occurs_at alts s pre g \<longleftrightarrow> (\<exists>a post. s = pre @ a @ g @ post \<and> a \<in> set alts \<and> valid_id g)"

definition id_alts :: "pystr list" where
  "id_alts = [str ''v='', str ''/'']"

definition all_alts :: "pystr list" where
  "all_alts = [str ''v='', str ''/'', str ''embed/'', str ''youtu.be/'', str ''shorts/'']"

text \<open>
  A string in which one of the five patterns finds an id: a literal of the first four
  followed by an accepted id somewhere in it, or the string is an accepted id.
\<close>

definition recognizable :: "pystr \<Rightarrow> bool" where
  "recognizable s \<longleftrightarrow> (\<exists>pre g. occurs_at all_alts s pre g) \<or> valid_id s"

text \<open>
  A run starts with the files of scratch storage and no call made.  The kinds of call
  counted below: the audio download, the speech-to-text call, the text-generation call,
  and the display of a summary.
\<close>

definition start :: "pystr set \<Rightarrow> world" where
  "start fs = \<lparr>files = fs, events = []\<rparr>"

fun is_download :: "event \<Rightarrow> bool" where
  "is_download (DownloadAudio _) = True"
| "is_download _ = False"

fun is_transcribe :: "event \<Rightarrow> bool" where
  "is_transcribe (Transcribe _) = True"
| "is_transcribe _ = False"

fun is_chat :: "event \<Rightarrow> bool" where
  "is_chat (Chat _) = True"
| "is_chat _ = False"

fun is_markdown :: "event \<Rightarrow> bool" where
  "is_markdown (ShowMarkdown _) = True"
| "is_markdown _ = False"

text \<open>The English section headers, as the mapping gives them.\<close>

definition english_prompts :: prompts where
  "english_prompts =
     \<lparr>p_title = str ''TITLE'',
      p_overview = str ''OVERVIEW'',
      p_key_points = str ''KEY POINTS'',
      p_takeaways = str ''MAIN TAKEAWAYS'',
      p_context = str ''CONTEXT & IMPLICATIONS''\<rparr>"

text \<open>\<open>occurs_in x s\<close>: the string \<open>x\<close> is a contiguous part of the string \<open>s\<close>.\<close>

definition occurs_in :: "pystr \<Rightarrow> pystr \<Rightarrow> bool" where
  "occurs_in x s \<longleftrightarrow> (\<exists>pre post. s = pre @ x @ post)"

text \<open>
  The five section header lines of the summary, as the prompt asks for them, with the
  headers of a vocabulary: the emoji, the header, and what follows it on the line.
\<close>

definition header_lines :: "prompts \<Rightarrow> pystr list" where
  "header_lines ps =
     [[0x1F3AF] @ str '' '' @ p_title ps @ str '': Create a descriptive title'',
      [0x1F4DD] @ str '' '' @ p_overview ps @ str '' (2-3 sentences):'',
      [0x1F511] @ str '' '' @ p_key_points ps @ str '':'',
      [0x1F4A1] @ str '' '' @ p_takeaways ps @ str '':'',
      [0x1F504] @ str '' '' @ p_context ps @ str '':'']"

section \<open>Example environments\<close>

text \<open>
  Concrete outside worlds on which the properties are run.  \<open>offline_env\<close>: no
  captions, no audio stream, no backend, and a splitter that raises on \<open>None\<close>.
  \<open>whisper_env\<close>: no captions, but the download, the encoder and the speech-to-text call
  succeed.  \<open>bad_encoder_env\<close>: the same with an encoder that leaves no output.
  \<open>captions_env\<close>: a listing with an auto-generated track before a manual one.
  \<open>fetch_error_env\<close>: a listing whose manual track cannot be fetched.  \<open>chunks_env\<close>: a
  splitter that gives six chunks.
\<close>

definition offline_env :: env where
  "offline_env =
     \<lparr>list_transcripts = (\<lambda>_. Inl (Raised ''TranscriptsDisabled'')),
      getenv_TMPDIR = None,
      makedirs = (\<lambda>_. None),
      first_audio_stream = (\<lambda>_. Inr None),
      ffmpeg = (\<lambda>_ _. False),
      transcriptions_create = (\<lambda>_. Inl (Raised ''APIConnectionError'')),
      split_text = (\<lambda>_ _ t. case t of None \<Rightarrow> Inl (Raised ''TypeError'') | Some s \<Rightarrow> Inr [s]),
      completions_create = (\<lambda>_. Inl (Raised ''APIConnectionError''))\<rparr>"

definition whisper_env :: env where
  "whisper_env =
     offline_env\<lparr>first_audio_stream := (\<lambda>_. Inr (Some \<lparr>download = None\<rparr>)),
                 ffmpeg := (\<lambda>_ _. True),
                 transcriptions_create := (\<lambda>_. Inr (str ''never gonna give you up''))\<rparr>"

definition bad_encoder_env :: env where
  "bad_encoder_env = whisper_env\<lparr>ffmpeg := (\<lambda>_ _. False)\<rparr>"

definition manual_track :: transcript where
  "manual_track =
     \<lparr>is_generated = False, language_code = str ''de'',
      fetch = Inr [\<lparr>part_text = str ''guten''\<rparr>, \<lparr>part_text = str ''tag''\<rparr>]\<rparr>"

definition auto_track :: transcript where
  "auto_track =
     \<lparr>is_generated = True, language_code = str ''en'',
      fetch = Inr [\<lparr>part_text = str ''good''\<rparr>, \<lparr>part_text = str ''day''\<rparr>]\<rparr>"

definition captions_env :: env where
  "captions_env = offline_env\<lparr>list_transcripts := (\<lambda>_. Inr [auto_track, manual_track])\<rparr>"

definition fetch_error_env :: env where
  "fetch_error_env =
     offline_env\<lparr>list_transcripts :=
       (\<lambda>_. Inr [manual_track\<lparr>fetch := Inl (Raised ''CouldNotRetrieveTranscript'')\<rparr>,
                 auto_track])\<rparr>"

definition chunks_env :: env where
  "chunks_env =
     offline_env\<lparr>split_text :=
                   (\<lambda>_ _ _. Inr [str ''a'', str ''b'', str ''c'', str ''d'', str ''e'', str ''f'']),
                 completions_create := (\<lambda>_. Inr (str ''summary''))\<rparr>"

section \<open>The search of the patterns\<close>

lemma id_group_Some_iff:
  "id_group s = Some g \<longleftrightarrow> (\<exists>post. s = g @ post \<and> valid_id g)"
proof
  assume "id_group s = Some g"
  then have g: "g = take 11 s" and len: "11 \<le> length s" and ok: "list_all idchar (take 11 s)"
    by (auto simp: id_group_def split: if_splits)
  have "s = g @ drop 11 s" by (simp add: g)
  moreover have "valid_id g" using len ok by (simp add: valid_id_def g)
  ultimately show "\<exists>post. s = g @ post \<and> valid_id g" by blast
next
  assume "\<exists>post. s = g @ post \<and> valid_id g"
  then show "id_group s = Some g" by (auto simp: id_group_def valid_id_def)
qed

lemma id_group_None_iff:
  "id_group s = None \<longleftrightarrow> \<not> (\<exists>g post. s = g @ post \<and> valid_id g)"
  using id_group_Some_iff [of s] by (cases "id_group s") auto

lemma take_eq_iff_append: "take (length a) s = a \<longleftrightarrow> (\<exists>t. s = a @ t)"
  by (metis append_eq_conv_conj append_take_drop_id)

lemma match_here_None_iff:
  "match_here alts s = None \<longleftrightarrow> \<not> (\<exists>g. occurs_at alts s [] g)"
proof (induction alts)
  case Nil
  then show ?case by (simp add: occurs_at_def)
next
  case (Cons a as)
  have here: "(\<exists>g post. s = a @ g @ post \<and> valid_id g) \<longleftrightarrow>
              (take (length a) s = a \<and> id_group (drop (length a) s) \<noteq> None)"
  proof
    assume "\<exists>g post. s = a @ g @ post \<and> valid_id g"
    then obtain g post where s: "s = a @ g @ post" and g: "valid_id g" by blast
    have "id_group (g @ post) = Some g" using g by (simp add: id_group_Some_iff)
    then show "take (length a) s = a \<and> id_group (drop (length a) s) \<noteq> None"
      by (simp add: s)
  next
    assume h: "take (length a) s = a \<and> id_group (drop (length a) s) \<noteq> None"
    then obtain g where "id_group (drop (length a) s) = Some g" by blast
    then obtain post where "drop (length a) s = g @ post" "valid_id g"
      by (auto simp: id_group_Some_iff)
    moreover have "s = a @ drop (length a) s" using h by (metis append_take_drop_id)
    ultimately show "\<exists>g post. s = a @ g @ post \<and> valid_id g" by metis
  qed
  have split: "(\<exists>g. occurs_at (a # as) s [] g) \<longleftrightarrow>
               (\<exists>g post. s = a @ g @ post \<and> valid_id g) \<or> (\<exists>g. occurs_at as s [] g)"
    unfolding occurs_at_def by simp blast
  show ?case
    unfolding split here using Cons.IH
    by (auto split: option.splits)
qed

lemma match_here_Some:
  "match_here alts s = Some g \<Longrightarrow> occurs_at alts s [] g"
proof (induction alts)
  case Nil
  then show ?case by simp
next
  case (Cons a as)
  show ?case
  proof (cases "take (length a) s = a \<and> id_group (drop (length a) s) = Some g")
    case True
    then obtain post where "drop (length a) s = g @ post" "valid_id g"
      by (auto simp: id_group_Some_iff)
    moreover have "s = a @ drop (length a) s"
      using True by (metis append_take_drop_id)
    ultimately have "s = [] @ a @ g @ post \<and> valid_id g" by simp
    then show ?thesis unfolding occurs_at_def by (metis list.set_intros(1))
  next
    case False
    with Cons.prems have "match_here as s = Some g"
      by (auto split: if_splits option.splits)
    then have "occurs_at as s [] g" by (rule Cons.IH)
    then show ?thesis by (auto simp: occurs_at_def)
  qed
qed

lemma occurs_at_Nil_string: "\<not> occurs_at alts [] pre g"
  by (auto simp: occurs_at_def valid_id_def)

lemma occurs_at_Cons_Cons [simp]:
  "occurs_at alts (c # cs) (d # pre) g \<longleftrightarrow> d = c \<and> occurs_at alts cs pre g"
  by (auto simp: occurs_at_def)

lemma search_from_None_iff:
  "search_from alts s = None \<longleftrightarrow> \<not> (\<exists>pre g. occurs_at alts s pre g)"
proof (induction s)
  case Nil
  then show ?case by (simp add: match_here_None_iff occurs_at_Nil_string)
next
  case (Cons c cs)
  have "search_from alts (c # cs) = None \<longleftrightarrow>
        match_here alts (c # cs) = None \<and> search_from alts cs = None"
    by (simp split: option.splits)
  also have "\<dots> \<longleftrightarrow> \<not> (\<exists>g. occurs_at alts (c # cs) [] g) \<and> \<not> (\<exists>pre g. occurs_at alts cs pre g)"
    by (simp only: match_here_None_iff Cons.IH)
  also have "\<dots> \<longleftrightarrow> \<not> (\<exists>pre g. occurs_at alts (c # cs) pre g)"
  proof -
    have "(\<exists>pre g. occurs_at alts (c # cs) pre g) \<longleftrightarrow>
          (\<exists>g. occurs_at alts (c # cs) [] g) \<or> (\<exists>pre g. occurs_at alts cs pre g)"
    proof
      assume "\<exists>pre g. occurs_at alts (c # cs) pre g"
      then obtain pre g where h: "occurs_at alts (c # cs) pre g" by blast
      show "(\<exists>g. occurs_at alts (c # cs) [] g) \<or> (\<exists>pre g. occurs_at alts cs pre g)"
        using h by (cases pre) auto
    next
      assume "(\<exists>g. occurs_at alts (c # cs) [] g) \<or> (\<exists>pre g. occurs_at alts cs pre g)"
      then show "\<exists>pre g. occurs_at alts (c # cs) pre g"
        by (metis occurs_at_Cons_Cons)
    qed
    then show ?thesis by simp
  qed
  finally show ?case .
qed

lemma search_from_Some:
  "search_from alts s = Some g \<Longrightarrow>
     \<exists>pre. occurs_at alts s pre g \<and> (\<forall>pre' g'. occurs_at alts s pre' g' \<longrightarrow> length pre \<le> length pre')"
proof (induction s)
  case Nil
  then have "occurs_at alts [] [] g" by (simp add: match_here_Some)
  then show ?case by (simp add: occurs_at_Nil_string)
next
  case (Cons c cs)
  show ?case
  proof (cases "match_here alts (c # cs)")
    case (Some h)
    with Cons.prems have "h = g" by simp
    with Some have "occurs_at alts (c # cs) [] g" by (simp add: match_here_Some)
    then show ?thesis by (intro exI [of _ "[]"]) simp
  next
    case None
    with Cons.prems have "search_from alts cs = Some g" by simp
    then obtain pre where pre: "occurs_at alts cs pre g"
      and least: "\<forall>pre' g'. occurs_at alts cs pre' g' \<longrightarrow> length pre \<le> length pre'"
      using Cons.IH by blast
    have no_head: "\<not> occurs_at alts (c # cs) [] g'" for g'
      using None by (simp add: match_here_None_iff)
    have "occurs_at alts (c # cs) (c # pre) g"
      using pre by simp
    moreover have "length (c # pre) \<le> length pre'" if "occurs_at alts (c # cs) pre' g'" for pre' g'
      using that least no_head by (cases pre') auto
    ultimately show ?thesis by blast
  qed
qed


lemma idchar_not_space: "idchar c \<Longrightarrow> \<not> isspace c"
  by (auto simp: idchar_def isspace_def)

lemma valid_id_ends:
  assumes "valid_id g"
  shows "g \<noteq> []" and "\<not> isspace (hd g)" and "\<not> isspace (last g)"
proof -
  show ne: "g \<noteq> []" using assms by (auto simp: valid_id_def)
  have all: "\<forall>c\<in>set g. idchar c" using assms by (simp add: valid_id_def list_all_iff)
  show "\<not> isspace (hd g)" using ne all by (simp add: idchar_not_space)
  show "\<not> isspace (last g)" using ne all by (simp add: idchar_not_space)
qed

lemma dropWhile_keeps:
  assumes "m \<noteq> []" and "\<not> P (hd m)"
  shows "dropWhile P (xs @ m @ ys) = dropWhile P xs @ m @ ys"
proof -
  have "dropWhile P (m @ ys) = m @ ys"
    using assms by (cases m) auto
  then show ?thesis by (simp add: dropWhile_append)
qed

lemma strip_middle:
  assumes "m \<noteq> []" and "\<not> isspace (hd m)" and "\<not> isspace (last m)"
  shows "strip (pre @ m @ post) = dropWhile isspace pre @ m @ rev (dropWhile isspace (rev post))"
proof -
  have a: "dropWhile isspace (pre @ m @ post) = dropWhile isspace pre @ m @ post"
    using assms(1,2) by (rule dropWhile_keeps)
  have "rev (dropWhile isspace pre @ m @ post) = rev post @ rev m @ rev (dropWhile isspace pre)"
    by simp
  moreover have "dropWhile isspace (rev post @ rev m @ rev (dropWhile isspace pre))
                 = dropWhile isspace (rev post) @ rev m @ rev (dropWhile isspace pre)"
    using assms(1,3) by (intro dropWhile_keeps) (simp_all add: hd_rev)
  ultimately show ?thesis by (simp add: strip_def a)
qed

lemma strip_no_trailing_space:
  assumes "strip s \<noteq> []"
  shows "\<not> isspace (last (strip s))"
proof -
  let ?d = "dropWhile isspace (rev (dropWhile isspace s))"
  have ne: "?d \<noteq> []" using assms by (simp add: strip_def)
  then have "\<not> isspace (hd ?d)" by (rule hd_dropWhile)
  moreover have "last (strip s) = hd ?d" using ne by (simp add: strip_def last_rev)
  ultimately show ?thesis by simp
qed

lemma occurs_at_strip:
  assumes "occurs_at id_alts s pre g"
  shows "occurs_at id_alts (strip s) (dropWhile isspace pre) g"
proof -
  from assms obtain a post where s: "s = pre @ a @ g @ post" and a: "a \<in> set id_alts"
    and g: "valid_id g" by (auto simp: occurs_at_def)
  have a_ne: "a \<noteq> []" and a_hd: "\<not> isspace (hd a)"
    using a by (auto simp: id_alts_def str_def isspace_def)
  have "a @ g \<noteq> []" "\<not> isspace (hd (a @ g))" "\<not> isspace (last (a @ g))"
    using a_ne a_hd valid_id_ends [OF g] by simp_all
  then have "strip (pre @ (a @ g) @ post)
             = dropWhile isspace pre @ (a @ g) @ rev (dropWhile isspace (rev post))"
    by (rule strip_middle)
  then show ?thesis using a g unfolding occurs_at_def s by auto
qed

lemma occurs_at_slash:
  assumes "occurs_at [x @ str ''/''] s pre g"
  shows "occurs_at id_alts s (pre @ x) g"
  using assms by (auto simp: occurs_at_def id_alts_def)

lemma search_from_slash_None:
  assumes "search_from id_alts s = None"
  shows "search_from [x @ str ''/''] s = None"
  using assms occurs_at_slash unfolding search_from_None_iff by blast

lemma first_match_patterns:
  "first_match patterns s =
     (case search_from id_alts s of Some g \<Rightarrow> Some g | None \<Rightarrow> re_search Whole s)"
proof (cases "search_from id_alts s")
  case None
  have "search_from [str ''embed'' @ str ''/''] s = None"
       "search_from [str ''youtu.be'' @ str ''/''] s = None"
       "search_from [str ''shorts'' @ str ''/''] s = None"
    using None by (rule search_from_slash_None)+
  then have "search_from [str ''embed/''] s = None"
       "search_from [str ''youtu.be/''] s = None"
       "search_from [str ''shorts/''] s = None"
    by (simp_all add: str_def)
  then show ?thesis using None
    by (simp add: patterns_def id_alts_def del: re_search.simps(2) split: option.splits)
next
  case (Some g)
  then show ?thesis by (simp add: patterns_def id_alts_def)
qed

lemma re_search_Whole_strip:
  "re_search Whole (strip s) = (if valid_id (strip s) then Some (strip s) else None)"
proof (cases "id_group (strip s)")
  case None
  then have "\<not> valid_id (strip s)"
    unfolding id_group_None_iff by (metis append_Nil2)
  with None show ?thesis by simp
next
  case (Some g)
  then obtain post where s: "strip s = g @ post" and g: "valid_id g"
    by (auto simp: id_group_Some_iff)
  have d: "drop 11 (strip s) = post" using g by (simp add: s valid_id_def)
  have "post \<noteq> [10]"
  proof
    assume "post = [10]"
    then have "last (strip s) = 10" by (simp add: s)
    moreover have "strip s \<noteq> []" using s g by (auto simp: valid_id_def)
    ultimately show False using strip_no_trailing_space [of s] by (simp add: isspace_def)
  qed
  moreover have "valid_id (strip s) \<longleftrightarrow> post = []"
    using g by (auto simp: s valid_id_def)
  ultimately show ?thesis using Some d by (auto simp: s)
qed

lemma first_match_nth:
  "i < length ps \<Longrightarrow> re_search (ps ! i) s = Some g \<Longrightarrow>
   (\<forall>j<i. re_search (ps ! j) s = None) \<Longrightarrow> first_match ps s = Some g"
proof (induction ps arbitrary: i)
  case Nil
  then show ?case by simp
next
  case (Cons p ps)
  show ?case
  proof (cases i)
    case 0
    with Cons.prems show ?thesis by simp
  next
    case (Suc k)
    have "re_search p s = None" using Cons.prems(3) Suc by force
    moreover have "first_match ps s = Some g"
    proof (rule Cons.IH)
      show "k < length ps" using Cons.prems(1) Suc by simp
      show "re_search (ps ! k) s = Some g" using Cons.prems(2) Suc by simp
      show "\<forall>j<k. re_search (ps ! j) s = None" using Cons.prems(3) Suc by force
    qed
    ultimately show ?thesis by simp
  qed
qed

lemma prefixed_shape:
  assumes "valid_id vid" and "p \<in> set url_prefixes"
  shows "extract_video_id (p @ vid @ rest) = Inr vid"
proof -
  have len: "length vid = 11" and ok: "list_all idchar vid"
    using assms(1) by (simp_all add: valid_id_def)
  have p: "p \<noteq> []" "\<not> isspace (hd p)"
    using assms(2) by (auto simp: url_prefixes_def str_def isspace_def)
  have "p @ vid \<noteq> []" "\<not> isspace (hd (p @ vid))" "\<not> isspace (last (p @ vid))"
    using p valid_id_ends [OF assms(1)] by simp_all
  then have "strip ([] @ (p @ vid) @ rest) = dropWhile isspace [] @ (p @ vid) @ rev (dropWhile isspace (rev rest))"
    by (rule strip_middle)
  then have st: "strip (p @ vid @ rest) = p @ vid @ rev (dropWhile isspace (rev rest))"
    by simp
  have "search_from id_alts (p @ vid @ post) = Some vid" for post
    using assms(2) len ok
    by (auto simp: url_prefixes_def id_alts_def str_def id_group_def idchar_def)
  then show ?thesis
    by (simp add: extract_video_id_def first_match_patterns st)
qed

lemma bare_shape:
  assumes "valid_id vid"
  shows "extract_video_id vid = Inr vid"
proof -
  have "strip ([] @ vid @ []) = dropWhile isspace [] @ vid @ rev (dropWhile isspace (rev []))"
    using valid_id_ends [OF assms] by (rule strip_middle)
  then have st: "strip vid = vid" by simp
  show ?thesis
  proof (cases "search_from id_alts vid")
    case None
    have "re_search Whole (strip vid) = Some vid"
      unfolding re_search_Whole_strip using assms by (simp add: st)
    then have "re_search Whole vid = Some vid" by (simp only: st)
    then show ?thesis using None
      by (simp add: extract_video_id_def first_match_patterns st del: re_search.simps(2))
  next
    case (Some g)
    then obtain pre where "occurs_at id_alts vid pre g"
      using search_from_Some by blast
    then obtain a post where v: "vid = pre @ a @ g @ post" and a: "a \<in> set id_alts" and g: "valid_id g"
      by (auto simp: occurs_at_def)
    have "length vid \<ge> length a + length g" by (simp add: v)
    moreover have "length a > 0" using a by (auto simp: id_alts_def str_def)
    ultimately have False using assms g by (simp add: valid_id_def)
    then show ?thesis ..
  qed
qed

lemma extract_video_id_leftmost:
  assumes "occurs_at id_alts s pre g"
  shows "\<exists>pre' g'. occurs_at id_alts (strip s) pre' g' \<and>
           (\<forall>pre'' g''. occurs_at id_alts (strip s) pre'' g'' \<longrightarrow> length pre' \<le> length pre'') \<and>
           extract_video_id s = Inr g'"
proof -
  have "occurs_at id_alts (strip s) (dropWhile isspace pre) g"
    using assms by (rule occurs_at_strip)
  then have "search_from id_alts (strip s) \<noteq> None"
    unfolding search_from_None_iff by blast
  then obtain g' where g': "search_from id_alts (strip s) = Some g'" by blast
  then have "extract_video_id s = Inr g'"
    by (simp add: extract_video_id_def first_match_patterns)
  with search_from_Some [OF g'] show ?thesis by blast
qed

lemma strip_embedded: "\<exists>t. s = takeWhile isspace s @ strip s @ t"
proof -
  let ?d = "dropWhile isspace s"
  have "?d = rev (takeWhile isspace (rev ?d) @ dropWhile isspace (rev ?d))"
    by (simp only: takeWhile_dropWhile_id rev_rev_ident)
  also have "\<dots> = rev (dropWhile isspace (rev ?d)) @ rev (takeWhile isspace (rev ?d))"
    by (simp only: rev_append)
  finally have "?d = strip s @ rev (takeWhile isspace (rev ?d))"
    by (simp only: strip_def)
  moreover have "s = takeWhile isspace s @ ?d" by simp
  ultimately show ?thesis by metis
qed

lemma occurs_at_unstrip:
  assumes "occurs_at alts (strip s) pre g"
  shows "occurs_at alts s (takeWhile isspace s @ pre) g"
proof -
  obtain t where t: "s = takeWhile isspace s @ strip s @ t" using strip_embedded by blast
  from assms obtain a post where "strip s = pre @ a @ g @ post" "a \<in> set alts" "valid_id g"
    by (auto simp: occurs_at_def)
  then have "s = (takeWhile isspace s @ pre) @ a @ g @ (post @ t) \<and> a \<in> set alts \<and> valid_id g"
    using t by simp
  then show ?thesis unfolding occurs_at_def by blast
qed

lemma occurs_at_same_start:
  assumes "occurs_at id_alts s pre g" and "occurs_at id_alts s pre' g'"
    and "length pre = length pre'"
  shows "g' = g"
proof -
  from assms(1) obtain a post where 1: "s = pre @ a @ g @ post" "a \<in> set id_alts" "valid_id g"
    by (auto simp: occurs_at_def)
  from assms(2) obtain a' post' where 2: "s = pre' @ a' @ g' @ post'" "a' \<in> set id_alts" "valid_id g'"
    by (auto simp: occurs_at_def)
  have "pre @ a @ g @ post = pre' @ a' @ g' @ post'" using 1 2 by simp
  then have eq: "a @ g @ post = a' @ g' @ post'" using assms(3) by simp
  have "a = a'"
    using eq 1(2) 2(2) by (auto simp: id_alts_def str_def)
  then have "g @ post = g' @ post'" using eq by simp
  moreover have "length g = length g'" using 1(3) 2(3) by (simp add: valid_id_def)
  ultimately show ?thesis by simp
qed

lemma occurs_at_match_here:
  assumes "occurs_at alts s pre g"
  shows "match_here alts (drop (length pre) s) \<noteq> None"
proof -
  from assms obtain a post where "s = pre @ a @ g @ post" "a \<in> set alts" "valid_id g"
    by (auto simp: occurs_at_def)
  then have "drop (length pre) s = [] @ a @ g @ post \<and> a \<in> set alts \<and> valid_id g"
    by simp
  then have "occurs_at alts (drop (length pre) s) [] g"
    unfolding occurs_at_def by blast
  then show ?thesis unfolding match_here_None_iff by blast
qed

lemma takeWhile_before:
  assumes "m \<noteq> []" and "\<not> P (hd m)"
  shows "takeWhile P (xs @ m @ ys) = takeWhile P xs"
proof -
  have "takeWhile P (m @ ys) = []" using assms by (cases m) auto
  then show ?thesis by (induction xs) auto
qed

lemma extract_video_id_leftmost_exact:
  assumes occ: "occurs_at id_alts s pre g"
    and least: "\<forall>pre' g'. occurs_at id_alts s pre' g' \<longrightarrow> length pre \<le> length pre'"
  shows "extract_video_id s = Inr g"
proof -
  obtain pre' g' where p: "occurs_at id_alts (strip s) pre' g'"
    and l: "\<forall>pre'' g''. occurs_at id_alts (strip s) pre'' g'' \<longrightarrow> length pre' \<le> length pre''"
    and r: "extract_video_id s = Inr g'"
    using extract_video_id_leftmost [OF occ] by blast
  have here: "occurs_at id_alts (strip s) (dropWhile isspace pre) g"
    using occ by (rule occurs_at_strip)
  from occ obtain a post where s: "s = pre @ a @ g @ post" and a: "a \<in> set id_alts"
    by (auto simp: occurs_at_def)
  have "a \<noteq> []" "\<not> isspace (hd a)"
    using a by (auto simp: id_alts_def str_def isspace_def)
  then have "takeWhile isspace (pre @ a @ (g @ post)) = takeWhile isspace pre"
    by (rule takeWhile_before)
  then have tw: "takeWhile isspace s = takeWhile isspace pre" by (simp add: s)
  have "length pre \<le> length (takeWhile isspace s @ pre')"
    using least occurs_at_unstrip [OF p] by blast
  moreover have "length pre' \<le> length (dropWhile isspace pre)"
    using l here by blast
  moreover have "length pre = length (takeWhile isspace pre) + length (dropWhile isspace pre)"
    by (metis length_append takeWhile_dropWhile_id)
  ultimately have "length (dropWhile isspace pre) = length pre'"
    by (simp add: tw)
  then have "g' = g" using occurs_at_same_start [OF here p] by simp
  then show ?thesis using r by simp
qed

lemma tie_example:
  "re_search (patterns ! 0) (strip (str ''/aaaaaaaaaaa/embed/bbbbbbbbbbb'')) = Some (str ''aaaaaaaaaaa'')"
  "re_search (patterns ! 1) (strip (str ''/aaaaaaaaaaa/embed/bbbbbbbbbbb'')) = Some (str ''bbbbbbbbbbb'')"
  by (simp_all add: patterns_def strip_def str_def isspace_def id_group_def idchar_def)

section \<open>Properties of extract_video_id\<close>

text \<open>
  C3, as the program has it.  For every id of eleven characters of the class
  \<open>[0-9A-Za-z_-]\<close> (the class has no \<open>.\<close>), \<open>extract_video_id\<close> returns exactly that id
  from each of the five URL shapes, and from the four URL forms followed by any further
  text.  When several patterns match, the first matching pattern of the list gives the
  result: if pattern \<open>i\<close> matches with group \<open>g\<close> and no earlier pattern matches, the
  result is \<open>g\<close>.
\<close>

theorem extract_video_id_url_shapes:
  assumes "valid_id vid"
  shows "(\<forall>u\<in>set (url_shapes vid). extract_video_id u = Inr vid) \<and>
         (\<forall>p\<in>set url_prefixes. \<forall>rest. extract_video_id (p @ vid @ rest) = Inr vid) \<and>
         (\<forall>s i g. i < length patterns \<longrightarrow> re_search (patterns ! i) (strip s) = Some g \<longrightarrow>
                   (\<forall>j<i. re_search (patterns ! j) (strip s) = None) \<longrightarrow>
                   extract_video_id s = Inr g)"
proof (intro conjI ballI allI impI)
  fix u assume "u \<in> set (url_shapes vid)"
  then consider p where "p \<in> set url_prefixes" "u = p @ vid @ []" | "u = vid"
    by (auto simp: url_shapes_def)
  then show "extract_video_id u = Inr vid"
  proof cases
    case 1
    then show ?thesis using prefixed_shape [OF assms, of p "[]"] by simp
  next
    case 2
    then show ?thesis using bare_shape [OF assms] by simp
  qed
next
  fix p rest assume "p \<in> set url_prefixes"
  then show "extract_video_id (p @ vid @ rest) = Inr vid"
    using assms by (intro prefixed_shape)
next
  fix s i g
  assume "i < length patterns" "re_search (patterns ! i) (strip s) = Some g"
    "\<forall>j<i. re_search (patterns ! j) (strip s) = None"
  then have "first_match patterns (strip s) = Some g" by (rule first_match_nth)
  then show "extract_video_id s = Inr g" by (simp add: extract_video_id_def)
qed

text \<open>
  The property at the id \<open>dQw4w9WgXcQ\<close>, and a string in which the first and the second
  pattern both match, with different groups: the first pattern's group is returned.
\<close>

theorem extract_video_id_url_shapes_witness:
  "valid_id (str ''dQw4w9WgXcQ'') \<and>
   str ''https://youtu.be/dQw4w9WgXcQ'' \<in> set (url_shapes (str ''dQw4w9WgXcQ'')) \<and>
   extract_video_id (str ''https://youtu.be/dQw4w9WgXcQ'') = Inr (str ''dQw4w9WgXcQ'') \<and>
   str ''https://www.youtube.com/watch?v='' \<in> set url_prefixes \<and>
   extract_video_id (str ''https://www.youtube.com/watch?v='' @ str ''dQw4w9WgXcQ'' @ str ''&t=42s'')
     = Inr (str ''dQw4w9WgXcQ'') \<and>
   (0::nat) < length patterns \<and>
   re_search (patterns ! 0) (strip (str ''/aaaaaaaaaaa/embed/bbbbbbbbbbb'')) = Some (str ''aaaaaaaaaaa'') \<and>
   re_search (patterns ! 1) (strip (str ''/aaaaaaaaaaa/embed/bbbbbbbbbbb'')) = Some (str ''bbbbbbbbbbb'') \<and>
   extract_video_id (str ''/aaaaaaaaaaa/embed/bbbbbbbbbbb'') = Inr (str ''aaaaaaaaaaa'')"
proof -
  have v: "valid_id (str ''dQw4w9WgXcQ'')"
    by (simp add: valid_id_def str_def idchar_def)
  note t = extract_video_id_url_shapes [OF v]
  have m: "str ''https://youtu.be/dQw4w9WgXcQ'' \<in> set (url_shapes (str ''dQw4w9WgXcQ''))"
    by (simp add: url_shapes_def url_prefixes_def str_def)
  have q: "str ''https://www.youtube.com/watch?v='' \<in> set url_prefixes"
    by (simp add: url_prefixes_def)
  have n: "(0::nat) < length patterns" by (simp add: patterns_def)
  note t1 = t [THEN conjunct1, rule_format]
  note t2 = t [THEN conjunct2, THEN conjunct1, rule_format]
  note t3 = t [THEN conjunct2, THEN conjunct2, rule_format]
  have 1: "extract_video_id (str ''https://youtu.be/dQw4w9WgXcQ'') = Inr (str ''dQw4w9WgXcQ'')"
    by (rule t1 [OF m])
  have 2: "extract_video_id (str ''https://www.youtube.com/watch?v='' @ str ''dQw4w9WgXcQ'' @ str ''&t=42s'')
     = Inr (str ''dQw4w9WgXcQ'')"
    by (rule t2 [OF q])
  have 3: "extract_video_id (str ''/aaaaaaaaaaa/embed/bbbbbbbbbbb'') = Inr (str ''aaaaaaaaaaa'')"
    by (rule t3 [OF n tie_example(1)]) simp
  show ?thesis by (intro conjI v m q n 1 2 3 tie_example)
qed

text \<open>
  C3 as stated fails for an id with a \<open>.\<close>: \<open>abc.defghij\<close> is eleven characters of the
  specification's alphabet, and in the short URL shape no pattern matches it.
\<close>

theorem extract_video_id_dot_id_rejected:
  "length (str ''abc.defghij'') = 11 \<and>
   list_all spec_idchar (str ''abc.defghij'') \<and>
   str ''https://youtu.be/abc.defghij'' \<in> set (url_shapes (str ''abc.defghij'')) \<and>
   extract_video_id (str ''https://youtu.be/abc.defghij'')
     = Inl (ValueError ''Could not extract video ID from URL'')"
  by (simp add: str_def spec_idchar_def url_shapes_def url_prefixes_def extract_video_id_def
      patterns_def strip_def isspace_def id_group_def idchar_def)

text \<open>
  The shapes fix the host: the first pattern is searched anywhere, so an embed URL on a
  host whose name starts with eleven characters of the class gives those instead.
\<close>

lemma embed_url_other_host:
  "extract_video_id (str ''https://youtube-nocookie.com/embed/dQw4w9WgXcQ'')
     = Inr (str ''youtube-noc'')"
  by (simp add: str_def extract_video_id_def patterns_def strip_def isspace_def id_group_def
      idchar_def)

text \<open>
  C8.  For every input in which, once stripped, none of the five patterns finds an
  id, \<open>extract_video_id\<close> fails with the \<open>ValueError\<close> of an invalid URL.
\<close>

theorem extract_video_id_no_id:
  assumes "\<not> recognizable (strip s)"
  shows "extract_video_id s = Inl (ValueError ''Could not extract video ID from URL'')"
proof -
  have "\<not> (\<exists>pre g. occurs_at id_alts (strip s) pre g)"
    using assms by (auto simp: recognizable_def occurs_at_def all_alts_def id_alts_def)
  then have "search_from id_alts (strip s) = None"
    by (simp add: search_from_None_iff)
  moreover have "re_search Whole (strip s) = None"
    unfolding re_search_Whole_strip using assms by (simp add: recognizable_def)
  ultimately show ?thesis
    by (simp add: extract_video_id_def first_match_patterns del: re_search.simps(2))
qed

theorem extract_video_id_no_id_witness:
  "\<not> recognizable (strip (str ''https://www.youtube.com/watch?v=short'')) \<and>
   extract_video_id (str ''https://www.youtube.com/watch?v=short'')
     = Inl (ValueError ''Could not extract video ID from URL'')"
proof -
  have st: "strip (str ''https://www.youtube.com/watch?v=short'')
            = str ''https://www.youtube.com/watch?v=short''"
    by (simp add: strip_def str_def isspace_def)
  have "search_from all_alts (str ''https://www.youtube.com/watch?v=short'') = None"
    by (simp add: all_alts_def str_def id_group_def idchar_def)
  then have "\<not> (\<exists>pre g. occurs_at all_alts (str ''https://www.youtube.com/watch?v=short'') pre g)"
    by (simp add: search_from_None_iff)
  moreover have "\<not> valid_id (str ''https://www.youtube.com/watch?v=short'')"
    by (simp add: valid_id_def str_def)
  ultimately have h: "\<not> recognizable (strip (str ''https://www.youtube.com/watch?v=short''))"
    by (simp add: recognizable_def st)
  show ?thesis by (intro conjI h extract_video_id_no_id [OF h])
qed

text \<open>
  C9.  The patterns are searched anywhere in the string.  Every string that has \<open>v=\<close>
  or \<open>/\<close> followed by eleven characters of the class, whatever surrounds them, makes
  \<open>extract_video_id\<close> return such an eleven-character substring instead of failing; it
  returns the one of the leftmost such place.  A URL of another domain is an example.
\<close>

theorem extract_video_id_unanchored:
  assumes "occurs_at id_alts s pre g"
  shows "(\<exists>pre' g'. occurs_at id_alts s pre' g' \<and> extract_video_id s = Inr g') \<and>
         ((\<forall>pre' g'. occurs_at id_alts s pre' g' \<longrightarrow> length pre \<le> length pre') \<longrightarrow>
            extract_video_id s = Inr g)"
proof
  obtain pre' g' where "occurs_at id_alts (strip s) pre' g'" "extract_video_id s = Inr g'"
    using extract_video_id_leftmost [OF assms] by blast
  then show "\<exists>pre' g'. occurs_at id_alts s pre' g' \<and> extract_video_id s = Inr g'"
    using occurs_at_unstrip by blast
  show "(\<forall>pre' g'. occurs_at id_alts s pre' g' \<longrightarrow> length pre \<le> length pre') \<longrightarrow>
            extract_video_id s = Inr g"
    using assms extract_video_id_leftmost_exact by blast
qed

theorem extract_video_id_unanchored_witness:
  "occurs_at id_alts (str ''https://example.com/watch?v=dQw4w9WgXcQ'')
     (str ''https://example.com/watch?'') (str ''dQw4w9WgXcQ'') \<and>
   extract_video_id (str ''https://example.com/watch?v=dQw4w9WgXcQ'') = Inr (str ''dQw4w9WgXcQ'')"
proof -
  let ?s = "str ''https://example.com/watch?v=dQw4w9WgXcQ''"
  let ?pre = "str ''https://example.com/watch?''"
  let ?g = "str ''dQw4w9WgXcQ''"
  have "?s = ?pre @ str ''v='' @ ?g @ [] \<and> str ''v='' \<in> set id_alts \<and> valid_id ?g"
    by (simp add: str_def id_alts_def valid_id_def idchar_def)
  then have occ: "occurs_at id_alts ?s ?pre ?g"
    unfolding occurs_at_def by blast
  have "list_all (\<lambda>n. match_here id_alts (drop n ?s) = None) [0..<26]"
    by code_simp
  then have none: "\<forall>n<26. match_here id_alts (drop n ?s) = None"
    by (simp add: list_all_iff)
  have least: "\<forall>pre' g'. occurs_at id_alts ?s pre' g' \<longrightarrow> length ?pre \<le> length pre'"
  proof (intro allI impI)
    fix pre' g' assume "occurs_at id_alts ?s pre' g'"
    then have "match_here id_alts (drop (length pre') ?s) \<noteq> None"
      by (rule occurs_at_match_here)
    moreover have "match_here id_alts (drop (length pre') ?s) = None" if "length pre' < 26"
      using none that by simp
    ultimately have "\<not> length pre' < 26" by (rule contrapos_nn)
    moreover have "length ?pre = 26" by (simp add: str_def)
    ultimately show "length ?pre \<le> length pre'" by simp
  qed
  have "extract_video_id ?s = Inr ?g"
    by (rule extract_video_id_unanchored [OF occ, THEN conjunct2, rule_format]) (rule least [rule_format])
  with occ show ?thesis by (intro conjI)
qed

section \<open>The effects of the fallback\<close>

lemma events_start [simp]: "events (start fs) = []"
  by (simp add: start_def)

lemma files_start [simp]: "files (start fs) = fs"
  by (simp add: start_def)

lemma path_join_nonempty: "b \<noteq> [] \<Longrightarrow> path_join a b \<noteq> []"
  by (simp add: path_join_def)

lemma download_audio_body_effect:
  assumes "download_audio_body env url w = (r, w')"
  shows "(events w' = events w \<and> files w' = files w \<and> (\<exists>e. r = Inl e)) \<or>
         (\<exists>raw out. events w' = events w @ [Ffmpeg raw out] \<and> raw \<notin> files w' \<and>
            (case r of Inr p \<Rightarrow> p = out \<and> p \<in> files w' \<and> p \<noteq> [] | Inl e \<Rightarrow> out \<notin> files w'))"
proof (cases "extract_video_id url")
  case (Inl e)
  then have "download_audio_body env url w = (Inl e, w)"
    by (simp add: download_audio_body_def)
  with assms have "r = Inl e" "w' = w" by simp_all
  then show ?thesis by simp
next
  case (Inr video_id)
  define temp_dir where "temp_dir = (case getenv_TMPDIR env of
                            Some d \<Rightarrow> d
                          | None \<Rightarrow> str ''/tmp/youtube_audio'')"
  define out where "out = path_join temp_dir (video_id @ str ''.mp3'')"
  define raw where "raw = path_join temp_dir (video_id @ str ''_temp.mp4'')"
  have out_ne: "out \<noteq> []"
    unfolding out_def by (rule path_join_nonempty) (simp add: str_def)
  show ?thesis
  proof (cases "makedirs env temp_dir")
    case (Some e)
    then have "download_audio_body env url w = (Inl e, w)"
      using Inr by (simp add: download_audio_body_def temp_dir_def)
    with assms have "r = Inl e" "w' = w" by simp_all
    then show ?thesis by simp
  next
    case None
    note mk = None
    show ?thesis
    proof (cases "first_audio_stream env url")
      case (Inl e)
      then have "download_audio_body env url w = (Inl e, w)"
        using \<open>extract_video_id url = Inr video_id\<close> mk
        by (simp add: download_audio_body_def temp_dir_def)
      with assms have "r = Inl e" "w' = w" by simp_all
      then show ?thesis by simp
    next
      case (Inr so)
      note fs = Inr
      show ?thesis
      proof (cases so)
        case None
        then have "download_audio_body env url w = (Inl (Exception ''No audio stream found''), w)"
          using \<open>extract_video_id url = Inr video_id\<close> mk fs
          by (simp add: download_audio_body_def temp_dir_def)
        with assms have "r = Inl (Exception ''No audio stream found'')" "w' = w" by simp_all
        then show ?thesis by simp
      next
        case (Some audio_stream)
        show ?thesis
        proof (cases "download audio_stream")
          case (Some e)
          then have "download_audio_body env url w = (Inl e, w)"
            using \<open>extract_video_id url = Inr video_id\<close> mk fs \<open>so = Some audio_stream\<close>
            by (simp add: download_audio_body_def temp_dir_def)
          with assms have "r = Inl e" "w' = w" by simp_all
          then show ?thesis by simp
        next
          case None
          have "download_audio_body env url w =
                (let w1 = w\<lparr>files := insert raw (files w)\<rparr>;
                     w2 = emit (Ffmpeg raw out)
                            (if ffmpeg env raw out
                             then w1\<lparr>files := insert out (files w1)\<rparr>
                             else w1);
                     w3 = remove_if_exists raw w2
                 in if out \<in> files w3
                    then (Inr out, w3)
                    else (Inl (Exception ''Audio conversion failed''), w3))"
            using \<open>extract_video_id url = Inr video_id\<close> mk fs \<open>so = Some audio_stream\<close> None
            by (simp add: download_audio_body_def temp_dir_def [symmetric] Let_def
                  out_def [symmetric] raw_def [symmetric])
          then show ?thesis using assms out_ne
            by (auto simp: Let_def emit_def remove_if_exists_def split: if_splits)
        qed
      qed
    qed
  qed
qed

lemma download_audio_effect:
  assumes "download_audio env url w = (r, w')"
  shows "(events w' = events w @ [DownloadAudio url] \<and> files w' = files w \<and> r = None) \<or>
         (\<exists>raw out. events w' = events w @ [DownloadAudio url, Ffmpeg raw out] \<and> raw \<notin> files w' \<and>
            (case r of Some p \<Rightarrow> p = out \<and> p \<in> files w' \<and> p \<noteq> [] | None \<Rightarrow> out \<notin> files w'))"
proof -
  obtain rb where b: "download_audio_body env url (emit (DownloadAudio url) w) = (rb, w')"
    and r: "r = (case rb of Inl e \<Rightarrow> None | Inr p \<Rightarrow> Some p)"
    using assms by (auto simp: download_audio_def split: prod.splits sum.splits)
  show ?thesis
    using download_audio_body_effect [OF b] r
    by (auto simp: emit_def split: sum.splits)
qed

lemma transcribe_audio_effect:
  assumes "transcribe_audio env a w = (r, w')"
  shows "(events w' = events w \<and> files w' = files w \<and> r = (None, None) \<and>
            (a = None \<or> (\<exists>p. a = Some p \<and> (p = [] \<or> p \<notin> files w)))) \<or>
         (\<exists>p. a = Some p \<and> p \<noteq> [] \<and> p \<in> files w \<and> events w' = events w @ [Transcribe p] \<and>
            files w' = files w - {p} \<and>
            r = (case transcriptions_create env p of
                   Inr t \<Rightarrow> (Some t, Some (str ''en'')) | Inl e \<Rightarrow> (None, None)))"
  using assms
  by (auto simp: transcribe_audio_def Let_def emit_def remove_if_exists_def
           split: sum.splits option.splits if_splits)

lemma whisper_fallback_effect:
  assumes "whisper_fallback env url w = (r, w')"
  shows "\<exists>a w1. download_audio env url w = (a, w1) \<and> transcribe_audio env a w1 = (r, w')"
  using assms by (auto simp: whisper_fallback_def split: prod.splits)

lemma whisper_fallback_events:
  assumes "whisper_fallback env url w = (r, w')"
  shows "\<exists>new. events w' = events w @ DownloadAudio url # new \<and>
           list_all (\<lambda>ev. \<not> is_download ev \<and> \<not> is_chat ev \<and> \<not> is_markdown ev) new \<and>
           length (filter is_transcribe new) = (if fst (download_audio env url w) = None then 0 else 1) \<and>
           (\<forall>raw out. Ffmpeg raw out \<in> set new \<longrightarrow> raw \<notin> files w') \<and>
           (\<forall>p. Transcribe p \<in> set new \<longrightarrow> p \<notin> files w')"
proof -
  obtain a w1 where d: "download_audio env url w = (a, w1)"
    and t: "transcribe_audio env a w1 = (r, w')"
    using whisper_fallback_effect [OF assms] by blast
  show ?thesis
    using download_audio_effect [OF d] transcribe_audio_effect [OF t] d
    by (elim disjE exE conjE) (auto split: option.splits)
qed

lemma get_transcript_cases:
  "get_transcript env url w =
     (case extract_video_id url of
        Inl e \<Rightarrow> ((None, None), w)
      | Inr vid \<Rightarrow>
          (case fetch_captions env vid of
             Inr (t, l) \<Rightarrow> ((Some t, Some l), w)
           | Inl e \<Rightarrow> whisper_fallback env url w))"
  by (simp add: get_transcript_def)

lemma get_transcript_fallback:
  assumes "extract_video_id url = Inr vid" and "fetch_captions env vid = Inl e"
  shows "get_transcript env url w = whisper_fallback env url w"
  using assms by (simp add: get_transcript_def)

lemma get_transcript_events:
  "events (snd (get_transcript env url w)) = events w \<and> files (snd (get_transcript env url w)) = files w \<or>
   (\<exists>new. events (snd (get_transcript env url w)) = events w @ DownloadAudio url # new \<and>
           list_all (\<lambda>ev. \<not> is_download ev \<and> \<not> is_chat ev \<and> \<not> is_markdown ev) new \<and>
           (\<forall>raw out. Ffmpeg raw out \<in> set new \<longrightarrow> raw \<notin> files (snd (get_transcript env url w))) \<and>
           (\<forall>p. Transcribe p \<in> set new \<longrightarrow> p \<notin> files (snd (get_transcript env url w))))"
proof (cases "extract_video_id url")
  case (Inl e)
  then show ?thesis by (simp add: get_transcript_def)
next
  case (Inr vid)
  show ?thesis
  proof (cases "fetch_captions env vid")
    case (Inr tl)
    then show ?thesis using \<open>extract_video_id url = Inr vid\<close>
      by (simp add: get_transcript_def split: prod.splits)
  next
    case (Inl e)
    have g: "get_transcript env url w = whisper_fallback env url w"
      using \<open>extract_video_id url = Inr vid\<close> Inl by (rule get_transcript_fallback)
    obtain r w' where f: "whisper_fallback env url w = (r, w')" by (cases "whisper_fallback env url w")
    show ?thesis
      using whisper_fallback_events [OF f] by (simp add: g f) blast
  qed
qed

lemma find_manual_split:
  assumes "\<forall>t\<in>set pre. is_generated t" and "\<not> is_generated m"
  shows "find_manually_created_transcript (pre @ m # rest) = Inr m"
proof -
  have "filter (\<lambda>t. \<not> is_generated t) pre = []" using assms(1) by (simp add: filter_empty_conv)
  then show ?thesis using assms(2) by (simp add: find_manually_created_transcript_def)
qed

lemma find_manual_none:
  assumes "\<forall>t\<in>set tracks. is_generated t"
  shows "\<exists>e. find_manually_created_transcript tracks = Inl e"
proof -
  have "filter (\<lambda>t. \<not> is_generated t) tracks = []" using assms by (simp add: filter_empty_conv)
  then show ?thesis by (simp add: find_manually_created_transcript_def)
qed

lemma language_prompts_en: "map_of language_prompts (str ''en'') = Some english_prompts"
  by (simp add: language_prompts_def english_prompts_def)

lemma join_abcd:
  "join (str '' '') (take 4 [str ''a'', str ''b'', str ''c'', str ''d'', str ''e'', str ''f''])
     = str ''a b c d''"
  by (simp add: str_def)

lemma summarize_None:
  assumes "split_text env 2000 200 None = Inl e"
  shows "summarize_with_langchain_and_openai env None lang model_name w = (Inl e, w)"
  using assms by (simp add: summarize_with_langchain_and_openai_def)

section \<open>Runs on the example environments\<close>

lemma bare_id_ok: "extract_video_id (str ''dQw4w9WgXcQ'') = Inr (str ''dQw4w9WgXcQ'')"
  by (rule bare_shape) (simp add: valid_id_def str_def idchar_def)

lemma short_url_ok: "extract_video_id (str ''https://youtu.be/dQw4w9WgXcQ'') = Inr (str ''dQw4w9WgXcQ'')"
proof -
  have "valid_id (str ''dQw4w9WgXcQ'')" by (simp add: valid_id_def str_def idchar_def)
  moreover have "str ''https://youtu.be/'' \<in> set url_prefixes" by (simp add: url_prefixes_def)
  ultimately have "extract_video_id (str ''https://youtu.be/'' @ str ''dQw4w9WgXcQ'' @ []) = Inr (str ''dQw4w9WgXcQ'')"
    by (rule prefixed_shape)
  then show ?thesis by (simp add: str_def)
qed

lemma out_path:
  "path_join (str ''/tmp/youtube_audio'') (str ''dQw4w9WgXcQ'' @ str ''.mp3'')
     = str ''/tmp/youtube_audio/dQw4w9WgXcQ.mp3''"
  by (simp add: path_join_def str_def)

lemma raw_path:
  "path_join (str ''/tmp/youtube_audio'') (str ''dQw4w9WgXcQ'' @ str ''_temp.mp4'')
     = str ''/tmp/youtube_audio/dQw4w9WgXcQ_temp.mp4''"
  by (simp add: path_join_def str_def)

lemma paths_differ:
  "str ''/tmp/youtube_audio/dQw4w9WgXcQ.mp3'' \<noteq> str ''/tmp/youtube_audio/dQw4w9WgXcQ_temp.mp4''"
  "str ''/tmp/youtube_audio/dQw4w9WgXcQ.mp3'' \<noteq> []"
  by (simp_all add: str_def)

lemma whisper_download:
  "download_audio whisper_env (str ''dQw4w9WgXcQ'') (start {})
     = (Some (str ''/tmp/youtube_audio/dQw4w9WgXcQ.mp3''),
        \<lparr>files = {str ''/tmp/youtube_audio/dQw4w9WgXcQ.mp3''},
         events = [DownloadAudio (str ''dQw4w9WgXcQ''),
                   Ffmpeg (str ''/tmp/youtube_audio/dQw4w9WgXcQ_temp.mp4'')
                          (str ''/tmp/youtube_audio/dQw4w9WgXcQ.mp3'')]\<rparr>)"
proof -
  have "{str ''/tmp/youtube_audio/dQw4w9WgXcQ.mp3'',
         str ''/tmp/youtube_audio/dQw4w9WgXcQ_temp.mp4''}
        - {str ''/tmp/youtube_audio/dQw4w9WgXcQ_temp.mp4''}
        = {str ''/tmp/youtube_audio/dQw4w9WgXcQ.mp3''}"
    using paths_differ(1) by auto
  then show ?thesis
    using paths_differ
    by (simp add: download_audio_def download_audio_body_def bare_id_ok whisper_env_def
          offline_env_def Let_def emit_def remove_if_exists_def out_path raw_path start_def)
qed

lemma whisper_run:
  "get_transcript whisper_env (str ''dQw4w9WgXcQ'') (start {})
     = ((Some (str ''never gonna give you up''), Some (str ''en'')),
        \<lparr>files = {},
         events = [DownloadAudio (str ''dQw4w9WgXcQ''),
                   Ffmpeg (str ''/tmp/youtube_audio/dQw4w9WgXcQ_temp.mp4'')
                          (str ''/tmp/youtube_audio/dQw4w9WgXcQ.mp3''),
                   Transcribe (str ''/tmp/youtube_audio/dQw4w9WgXcQ.mp3'')]\<rparr>)"
proof -
  have "fetch_captions whisper_env (str ''dQw4w9WgXcQ'') = Inl (Raised ''TranscriptsDisabled'')"
    by (simp add: fetch_captions_def whisper_env_def offline_env_def)
  with bare_id_ok
  have "get_transcript whisper_env (str ''dQw4w9WgXcQ'') (start {})
        = whisper_fallback whisper_env (str ''dQw4w9WgXcQ'') (start {})"
    by (rule get_transcript_fallback)
  also have "\<dots> = transcribe_audio whisper_env (Some (str ''/tmp/youtube_audio/dQw4w9WgXcQ.mp3''))
        \<lparr>files = {str ''/tmp/youtube_audio/dQw4w9WgXcQ.mp3''},
         events = [DownloadAudio (str ''dQw4w9WgXcQ''),
                   Ffmpeg (str ''/tmp/youtube_audio/dQw4w9WgXcQ_temp.mp4'')
                          (str ''/tmp/youtube_audio/dQw4w9WgXcQ.mp3'')]\<rparr>"
    by (simp add: whisper_fallback_def whisper_download)
  also have "\<dots> = ((Some (str ''never gonna give you up''), Some (str ''en'')),
        \<lparr>files = {},
         events = [DownloadAudio (str ''dQw4w9WgXcQ''),
                   Ffmpeg (str ''/tmp/youtube_audio/dQw4w9WgXcQ_temp.mp4'')
                          (str ''/tmp/youtube_audio/dQw4w9WgXcQ.mp3''),
                   Transcribe (str ''/tmp/youtube_audio/dQw4w9WgXcQ.mp3'')]\<rparr>)"
    using paths_differ(2)
    by (simp add: transcribe_audio_def Let_def emit_def remove_if_exists_def whisper_env_def)
  finally show ?thesis .
qed

lemma bad_encoder_download:
  "download_audio bad_encoder_env (str ''dQw4w9WgXcQ'') (start {})
     = (None,
        \<lparr>files = {},
         events = [DownloadAudio (str ''dQw4w9WgXcQ''),
                   Ffmpeg (str ''/tmp/youtube_audio/dQw4w9WgXcQ_temp.mp4'')
                          (str ''/tmp/youtube_audio/dQw4w9WgXcQ.mp3'')]\<rparr>)"
  using paths_differ
  by (simp add: download_audio_def download_audio_body_def bare_id_ok bad_encoder_env_def
        whisper_env_def offline_env_def Let_def emit_def remove_if_exists_def out_path raw_path
        start_def)

lemma bad_encoder_run:
  "get_transcript bad_encoder_env (str ''dQw4w9WgXcQ'') (start {})
     = ((None, None),
        \<lparr>files = {},
         events = [DownloadAudio (str ''dQw4w9WgXcQ''),
                   Ffmpeg (str ''/tmp/youtube_audio/dQw4w9WgXcQ_temp.mp4'')
                          (str ''/tmp/youtube_audio/dQw4w9WgXcQ.mp3'')]\<rparr>)"
proof -
  have "fetch_captions bad_encoder_env (str ''dQw4w9WgXcQ'') = Inl (Raised ''TranscriptsDisabled'')"
    by (simp add: fetch_captions_def bad_encoder_env_def whisper_env_def offline_env_def)
  with bare_id_ok
  have "get_transcript bad_encoder_env (str ''dQw4w9WgXcQ'') (start {})
        = whisper_fallback bad_encoder_env (str ''dQw4w9WgXcQ'') (start {})"
    by (rule get_transcript_fallback)
  then show ?thesis
    by (simp add: whisper_fallback_def bad_encoder_download transcribe_audio_def)
qed

lemma offline_download:
  "download_audio offline_env (str ''dQw4w9WgXcQ'') (start {})
     = (None, \<lparr>files = {}, events = [DownloadAudio (str ''dQw4w9WgXcQ'')]\<rparr>)"
  by (simp add: download_audio_def download_audio_body_def bare_id_ok offline_env_def
        Let_def emit_def start_def)

lemma offline_run:
  "get_transcript offline_env (str ''dQw4w9WgXcQ'') (start {})
     = ((None, None), \<lparr>files = {}, events = [DownloadAudio (str ''dQw4w9WgXcQ'')]\<rparr>)"
proof -
  have "fetch_captions offline_env (str ''dQw4w9WgXcQ'') = Inl (Raised ''TranscriptsDisabled'')"
    by (simp add: fetch_captions_def offline_env_def)
  with bare_id_ok
  have "get_transcript offline_env (str ''dQw4w9WgXcQ'') (start {})
        = whisper_fallback offline_env (str ''dQw4w9WgXcQ'') (start {})"
    by (rule get_transcript_fallback)
  then show ?thesis
    by (simp add: whisper_fallback_def offline_download transcribe_audio_def)
qed

lemma captions_fetch:
  "fetch_captions captions_env (str ''dQw4w9WgXcQ'') = Inr (str ''guten tag'', str ''de'')"
  by (simp add: fetch_captions_def captions_env_def offline_env_def select_transcript_def
        find_manually_created_transcript_def manual_track_def auto_track_def str_def)

section \<open>Properties of the transcript pipeline\<close>

text \<open>
  C1.  In every run that reaches the caption listing (the id was extracted) and in
  which the listing raises, \<open>get_transcript\<close> calls \<open>download_audio\<close> exactly once, and
  when that download gives a file, it calls the speech-to-text transcription exactly
  once.  In every run in which fetching the captions succeeds, neither is called and
  the result is the caption text with its language code.
\<close>

theorem get_transcript_calls:
  assumes "extract_video_id url = Inr vid"
  shows "(\<forall>e. list_transcripts env vid = Inl e \<longrightarrow>
            length (filter is_download (events (snd (get_transcript env url (start fs))))) = 1 \<and>
            (\<forall>p. fst (download_audio env url (start fs)) = Some p \<longrightarrow>
               length (filter is_transcribe (events (snd (get_transcript env url (start fs))))) = 1)) \<and>
         (\<forall>t l. fetch_captions env vid = Inr (t, l) \<longrightarrow>
            filter is_download (events (snd (get_transcript env url (start fs)))) = [] \<and>
            filter is_transcribe (events (snd (get_transcript env url (start fs)))) = [] \<and>
            fst (get_transcript env url (start fs)) = (Some t, Some l))"
proof (intro conjI allI impI)
  fix e assume l: "list_transcripts env vid = Inl e"
  then have "fetch_captions env vid = Inl e" by (simp add: fetch_captions_def)
  with assms have g: "get_transcript env url (start fs) = whisper_fallback env url (start fs)"
    by (rule get_transcript_fallback)
  obtain r w' where f: "whisper_fallback env url (start fs) = (r, w')"
    by (cases "whisper_fallback env url (start fs)")
  obtain new where ev: "events w' = events (start fs) @ DownloadAudio url # new"
    and nd: "list_all (\<lambda>ev. \<not> is_download ev \<and> \<not> is_chat ev \<and> \<not> is_markdown ev) new"
    and nt: "length (filter is_transcribe new)
             = (if fst (download_audio env url (start fs)) = None then 0 else 1)"
    using whisper_fallback_events [OF f] by blast
  have "filter is_download new = []"
    using nd by (simp add: filter_empty_conv list_all_iff)
  then show "length (filter is_download (events (snd (get_transcript env url (start fs))))) = 1"
    by (simp add: g f ev)
  fix p assume "fst (download_audio env url (start fs)) = Some p"
  then show "length (filter is_transcribe (events (snd (get_transcript env url (start fs))))) = 1"
    using nt by (simp add: g f ev)
next
  fix t l assume "fetch_captions env vid = Inr (t, l)"
  then have "get_transcript env url (start fs) = ((Some t, Some l), start fs)"
    using assms by (simp add: get_transcript_def)
  then show "filter is_download (events (snd (get_transcript env url (start fs)))) = []"
    "filter is_transcribe (events (snd (get_transcript env url (start fs)))) = []"
    "fst (get_transcript env url (start fs)) = (Some t, Some l)"
    by simp_all
qed

text \<open>
  The bare id with no captions: one download, one transcription.  The short URL with
  captions: no download, no transcription, the manual track's text and language.
\<close>

theorem get_transcript_calls_witness:
  "extract_video_id (str ''dQw4w9WgXcQ'') = Inr (str ''dQw4w9WgXcQ'') \<and>
   list_transcripts whisper_env (str ''dQw4w9WgXcQ'') = Inl (Raised ''TranscriptsDisabled'') \<and>
   fst (download_audio whisper_env (str ''dQw4w9WgXcQ'') (start {}))
     = Some (str ''/tmp/youtube_audio/dQw4w9WgXcQ.mp3'') \<and>
   length (filter is_download
     (events (snd (get_transcript whisper_env (str ''dQw4w9WgXcQ'') (start {}))))) = 1 \<and>
   length (filter is_transcribe
     (events (snd (get_transcript whisper_env (str ''dQw4w9WgXcQ'') (start {}))))) = 1 \<and>
   extract_video_id (str ''https://youtu.be/dQw4w9WgXcQ'') = Inr (str ''dQw4w9WgXcQ'') \<and>
   fetch_captions captions_env (str ''dQw4w9WgXcQ'') = Inr (str ''guten tag'', str ''de'') \<and>
   filter is_download
     (events (snd (get_transcript captions_env (str ''https://youtu.be/dQw4w9WgXcQ'') (start {})))) = [] \<and>
   filter is_transcribe
     (events (snd (get_transcript captions_env (str ''https://youtu.be/dQw4w9WgXcQ'') (start {})))) = [] \<and>
   fst (get_transcript captions_env (str ''https://youtu.be/dQw4w9WgXcQ'') (start {}))
     = (Some (str ''guten tag''), Some (str ''de''))"
proof -
  have l: "list_transcripts whisper_env (str ''dQw4w9WgXcQ'') = Inl (Raised ''TranscriptsDisabled'')"
    by (simp add: whisper_env_def offline_env_def)
  have d: "fst (download_audio whisper_env (str ''dQw4w9WgXcQ'') (start {}))
     = Some (str ''/tmp/youtube_audio/dQw4w9WgXcQ.mp3'')"
    by (simp add: whisper_download)
  note a = get_transcript_calls [OF bare_id_ok, of whisper_env "{}", THEN conjunct1, rule_format, OF l]
  note b = get_transcript_calls [OF short_url_ok, of captions_env "{}", THEN conjunct2, rule_format,
             OF captions_fetch]
  show ?thesis
    by (intro conjI bare_id_ok l d a [THEN conjunct1] a [THEN conjunct2, rule_format, OF d]
          short_url_ok captions_fetch b [THEN conjunct1] b [THEN conjunct2, THEN conjunct1]
          b [THEN conjunct2, THEN conjunct2])
qed

text \<open>
  C2.  After every run, the raw downloaded file of every encoding that was attempted
  is absent from scratch storage, whether the encoder left an output or not, and every
  file passed to the transcriber is absent, whether the transcription succeeded or
  raised.
\<close>

theorem audio_files_removed:
  "(\<forall>raw out. Ffmpeg raw out \<in> set (events (snd (get_transcript env url (start fs)))) \<longrightarrow>
      raw \<notin> files (snd (get_transcript env url (start fs)))) \<and>
   (\<forall>p. Transcribe p \<in> set (events (snd (get_transcript env url (start fs)))) \<longrightarrow>
      p \<notin> files (snd (get_transcript env url (start fs))))"
proof -
  let ?w = "snd (get_transcript env url (start fs))"
  consider "events ?w = []"
    | new where "events ?w = DownloadAudio url # new"
        "\<forall>raw out. Ffmpeg raw out \<in> set new \<longrightarrow> raw \<notin> files ?w"
        "\<forall>p. Transcribe p \<in> set new \<longrightarrow> p \<notin> files ?w"
    using get_transcript_events [of env url "start fs"] by auto
  then show ?thesis
  proof cases
    case 1
    then show ?thesis by simp
  next
    case 2
    have "Ffmpeg raw out \<in> set new" if "Ffmpeg raw out \<in> set (events ?w)" for raw out
      using that 2(1) by simp
    moreover have "Transcribe p \<in> set new" if "Transcribe p \<in> set (events ?w)" for p
      using that 2(1) by simp
    ultimately show ?thesis using 2(2,3) by blast
  qed
qed

text \<open>
  A run whose encoding and transcription succeed, and a run whose encoder leaves no
  output: both files are gone after the first, the raw file after the second.
\<close>

theorem audio_files_removed_witness:
  "Ffmpeg (str ''/tmp/youtube_audio/dQw4w9WgXcQ_temp.mp4'') (str ''/tmp/youtube_audio/dQw4w9WgXcQ.mp3'')
     \<in> set (events (snd (get_transcript whisper_env (str ''dQw4w9WgXcQ'') (start {})))) \<and>
   str ''/tmp/youtube_audio/dQw4w9WgXcQ_temp.mp4''
     \<notin> files (snd (get_transcript whisper_env (str ''dQw4w9WgXcQ'') (start {}))) \<and>
   Transcribe (str ''/tmp/youtube_audio/dQw4w9WgXcQ.mp3'')
     \<in> set (events (snd (get_transcript whisper_env (str ''dQw4w9WgXcQ'') (start {})))) \<and>
   str ''/tmp/youtube_audio/dQw4w9WgXcQ.mp3''
     \<notin> files (snd (get_transcript whisper_env (str ''dQw4w9WgXcQ'') (start {}))) \<and>
   fst (get_transcript whisper_env (str ''dQw4w9WgXcQ'') (start {}))
     = (Some (str ''never gonna give you up''), Some (str ''en'')) \<and>
   Ffmpeg (str ''/tmp/youtube_audio/dQw4w9WgXcQ_temp.mp4'') (str ''/tmp/youtube_audio/dQw4w9WgXcQ.mp3'')
     \<in> set (events (snd (get_transcript bad_encoder_env (str ''dQw4w9WgXcQ'') (start {})))) \<and>
   str ''/tmp/youtube_audio/dQw4w9WgXcQ_temp.mp4''
     \<notin> files (snd (get_transcript bad_encoder_env (str ''dQw4w9WgXcQ'') (start {})))"
proof -
  have f1: "Ffmpeg (str ''/tmp/youtube_audio/dQw4w9WgXcQ_temp.mp4'') (str ''/tmp/youtube_audio/dQw4w9WgXcQ.mp3'')
     \<in> set (events (snd (get_transcript whisper_env (str ''dQw4w9WgXcQ'') (start {}))))"
    by (simp add: whisper_run)
  have t1: "Transcribe (str ''/tmp/youtube_audio/dQw4w9WgXcQ.mp3'')
     \<in> set (events (snd (get_transcript whisper_env (str ''dQw4w9WgXcQ'') (start {}))))"
    by (simp add: whisper_run)
  have r1: "fst (get_transcript whisper_env (str ''dQw4w9WgXcQ'') (start {}))
     = (Some (str ''never gonna give you up''), Some (str ''en''))"
    by (simp add: whisper_run)
  have f2: "Ffmpeg (str ''/tmp/youtube_audio/dQw4w9WgXcQ_temp.mp4'') (str ''/tmp/youtube_audio/dQw4w9WgXcQ.mp3'')
     \<in> set (events (snd (get_transcript bad_encoder_env (str ''dQw4w9WgXcQ'') (start {}))))"
    by (simp add: bad_encoder_run)
  note a = audio_files_removed [of whisper_env "str ''dQw4w9WgXcQ''" "{}"]
  note b = audio_files_removed [of bad_encoder_env "str ''dQw4w9WgXcQ''" "{}"]
  show ?thesis
    by (intro conjI f1 t1 r1 f2 a [THEN conjunct1, rule_format, OF f1]
          a [THEN conjunct2, rule_format, OF t1] b [THEN conjunct1, rule_format, OF f2])
qed

text \<open>
  C4, as the program has it.  When the listing succeeds, has a manually created track
  and fetching the segments of the first such track succeeds, the caption step returns
  that track's segment texts joined by spaces and its language code, wherever
  auto-generated tracks stand in the listing.  When the listing has only auto-generated
  tracks and fetching the first one succeeds, it returns the first track's.
\<close>

theorem fetch_captions_selection:
  assumes "list_transcripts env video_id = Inr tracks"
  shows "(\<forall>pre m rest parts.
            tracks = pre @ m # rest \<longrightarrow> (\<forall>t\<in>set pre. is_generated t) \<longrightarrow> \<not> is_generated m \<longrightarrow>
            fetch m = Inr parts \<longrightarrow>
            fetch_captions env video_id
              = Inr (join (str '' '') (map part_text parts), language_code m)) \<and>
         (\<forall>t rest parts.
            tracks = t # rest \<longrightarrow> (\<forall>u\<in>set tracks. is_generated u) \<longrightarrow> fetch t = Inr parts \<longrightarrow>
            fetch_captions env video_id
              = Inr (join (str '' '') (map part_text parts), language_code t))"
proof (intro conjI allI impI)
  fix pre m rest parts
  assume "tracks = pre @ m # rest" "\<forall>t\<in>set pre. is_generated t" "\<not> is_generated m"
    and f: "fetch m = Inr parts"
  then have "select_transcript tracks = Inr m"
    by (simp add: select_transcript_def find_manual_split)
  then show "fetch_captions env video_id
              = Inr (join (str '' '') (map part_text parts), language_code m)"
    using assms f by (simp add: fetch_captions_def)
next
  fix t rest parts
  assume tracks: "tracks = t # rest" and gen: "\<forall>u\<in>set tracks. is_generated u" and f: "fetch t = Inr parts"
  obtain e where "find_manually_created_transcript tracks = Inl e"
    using find_manual_none [OF gen] by blast
  then have "select_transcript tracks = Inr t"
    by (simp add: select_transcript_def next_iter_def tracks)
  then show "fetch_captions env video_id
              = Inr (join (str '' '') (map part_text parts), language_code t)"
    using assms f by (simp add: fetch_captions_def)
qed

text \<open>
  A listing with an auto-generated track before the manual one, and a listing with an
  auto-generated track only.
\<close>

theorem fetch_captions_selection_witness:
  "list_transcripts captions_env (str ''dQw4w9WgXcQ'') = Inr [auto_track, manual_track] \<and>
   is_generated auto_track \<and> \<not> is_generated manual_track \<and>
   fetch_captions captions_env (str ''dQw4w9WgXcQ'') = Inr (str ''guten tag'', str ''de'') \<and>
   list_transcripts (captions_env\<lparr>list_transcripts := (\<lambda>_. Inr [auto_track])\<rparr>) (str ''dQw4w9WgXcQ'')
     = Inr [auto_track] \<and>
   fetch_captions (captions_env\<lparr>list_transcripts := (\<lambda>_. Inr [auto_track])\<rparr>) (str ''dQw4w9WgXcQ'')
     = Inr (str ''good day'', str ''en'')"
proof -
  let ?v = "str ''dQw4w9WgXcQ''"
  let ?e2 = "captions_env\<lparr>list_transcripts := (\<lambda>_. Inr [auto_track])\<rparr>"
  have l1: "list_transcripts captions_env ?v = Inr [auto_track, manual_track]"
    by (simp add: captions_env_def)
  have l2: "list_transcripts ?e2 ?v = Inr [auto_track]" by simp
  have a: "is_generated auto_track" by (simp add: auto_track_def)
  have m: "\<not> is_generated manual_track" by (simp add: manual_track_def)
  have fm: "fetch manual_track = Inr [\<lparr>part_text = str ''guten''\<rparr>, \<lparr>part_text = str ''tag''\<rparr>]"
    by (simp add: manual_track_def)
  have fa: "fetch auto_track = Inr [\<lparr>part_text = str ''good''\<rparr>, \<lparr>part_text = str ''day''\<rparr>]"
    by (simp add: auto_track_def)
  have 1: "fetch_captions captions_env ?v
           = Inr (join (str '' '') (map part_text [\<lparr>part_text = str ''guten''\<rparr>, \<lparr>part_text = str ''tag''\<rparr>]),
                  language_code manual_track)"
    by (rule fetch_captions_selection [OF l1, THEN conjunct1, rule_format,
          of "[auto_track]" manual_track "[]"]) (simp_all add: a m fm)
  have 2: "fetch_captions ?e2 ?v
           = Inr (join (str '' '') (map part_text [\<lparr>part_text = str ''good''\<rparr>, \<lparr>part_text = str ''day''\<rparr>]),
                  language_code auto_track)"
    by (rule fetch_captions_selection [OF l2, THEN conjunct2, rule_format,
          of auto_track "[]"]) (simp_all add: a fa)
  have r1: "fetch_captions captions_env ?v = Inr (str ''guten tag'', str ''de'')"
    using 1 by (simp add: manual_track_def str_def)
  have r2: "fetch_captions ?e2 ?v = Inr (str ''good day'', str ''en'')"
    using 2 by (simp add: auto_track_def str_def)
  show ?thesis by (intro conjI l1 l2 a m r1 r2)
qed

text \<open>
  C4 as stated fails when the listing succeeds and has a manual track whose segments
  cannot be fetched: the exception of \<open>fetch\<close> leaves the caption step, which returns
  no text.
\<close>

theorem fetch_captions_fetch_error:
  "list_transcripts fetch_error_env (str ''dQw4w9WgXcQ'')
     = Inr [manual_track\<lparr>fetch := Inl (Raised ''CouldNotRetrieveTranscript'')\<rparr>, auto_track] \<and>
   \<not> is_generated (manual_track\<lparr>fetch := Inl (Raised ''CouldNotRetrieveTranscript'')\<rparr>) \<and>
   fetch_captions fetch_error_env (str ''dQw4w9WgXcQ'') = Inl (Raised ''CouldNotRetrieveTranscript'')"
  by (simp add: fetch_error_env_def fetch_captions_def select_transcript_def
      find_manually_created_transcript_def manual_track_def auto_track_def)

text \<open>
  C10.  \<open>download_audio\<close> turns every exception of its body into \<open>None\<close>: so it does
  when no audio stream is offered, when the stream's download raises, and when the
  output file is absent after the encoding.  \<open>get_transcript\<close> returns \<open>(None, None)\<close>
  when the download gave \<open>None\<close>, and the test on the file gives \<open>(None, None)\<close> for
  \<open>None\<close> and for a path with no file.
\<close>

theorem download_audio_returns_None:
  "(\<forall>e. fst (download_audio_body env url (emit (DownloadAudio url) w)) = Inl e \<longrightarrow>
      fst (download_audio env url w) = None) \<and>
   (first_audio_stream env url = Inr None \<longrightarrow> fst (download_audio env url w) = None) \<and>
   (\<forall>s e. first_audio_stream env url = Inr (Some s) \<longrightarrow> download s = Some e \<longrightarrow>
      fst (download_audio env url w) = None) \<and>
   (\<forall>fs raw out. Ffmpeg raw out \<in> set (events (snd (download_audio env url (start fs)))) \<longrightarrow>
      out \<notin> files (snd (download_audio env url (start fs))) \<longrightarrow>
      fst (download_audio env url (start fs)) = None) \<and>
   fst (transcribe_audio env None w) = (None, None) \<and>
   (\<forall>p. p \<notin> files w \<longrightarrow> fst (transcribe_audio env (Some p) w) = (None, None)) \<and>
   (\<forall>vid e. extract_video_id url = Inr vid \<longrightarrow> fetch_captions env vid = Inl e \<longrightarrow>
      fst (download_audio env url w) = None \<longrightarrow> fst (get_transcript env url w) = (None, None))"
proof (intro conjI allI impI)
  fix e assume "fst (download_audio_body env url (emit (DownloadAudio url) w)) = Inl e"
  then show "fst (download_audio env url w) = None"
    by (cases "download_audio_body env url (emit (DownloadAudio url) w)")
       (simp add: download_audio_def)
next
  assume "first_audio_stream env url = Inr None"
  then show "fst (download_audio env url w) = None"
    by (simp add: download_audio_def download_audio_body_def Let_def
          split: prod.splits sum.splits option.splits)
next
  fix s e assume "first_audio_stream env url = Inr (Some s)" "download s = Some e"
  then show "fst (download_audio env url w) = None"
    by (simp add: download_audio_def download_audio_body_def Let_def
          split: prod.splits sum.splits option.splits)
next
  fix fs raw out
  assume ev: "Ffmpeg raw out \<in> set (events (snd (download_audio env url (start fs))))"
    and ab: "out \<notin> files (snd (download_audio env url (start fs)))"
  obtain r w' where d: "download_audio env url (start fs) = (r, w')"
    by (cases "download_audio env url (start fs)")
  show "fst (download_audio env url (start fs)) = None"
  proof (cases r)
    case None
    then show ?thesis by (simp add: d)
  next
    case (Some p)
    then have "p = out \<and> p \<in> files w'"
      using download_audio_effect [OF d] ev by (auto simp: d)
    then show ?thesis using ab by (auto simp: d)
  qed
next
  show "fst (transcribe_audio env None w) = (None, None)"
    by (simp add: transcribe_audio_def)
next
  fix p assume "p \<notin> files w"
  then show "fst (transcribe_audio env (Some p) w) = (None, None)"
    by (simp add: transcribe_audio_def)
next
  fix vid e
  assume x: "extract_video_id url = Inr vid" and c: "fetch_captions env vid = Inl e"
    and d: "fst (download_audio env url w) = None"
  have "get_transcript env url w = whisper_fallback env url w"
    using x c by (rule get_transcript_fallback)
  then show "fst (get_transcript env url w) = (None, None)"
    using d by (simp add: whisper_fallback_def transcribe_audio_def split: prod.splits)
qed

theorem download_audio_returns_None_witness:
  "first_audio_stream offline_env (str ''dQw4w9WgXcQ'') = Inr None \<and>
   fst (download_audio offline_env (str ''dQw4w9WgXcQ'') (start {})) = None \<and>
   Ffmpeg (str ''/tmp/youtube_audio/dQw4w9WgXcQ_temp.mp4'') (str ''/tmp/youtube_audio/dQw4w9WgXcQ.mp3'')
     \<in> set (events (snd (download_audio bad_encoder_env (str ''dQw4w9WgXcQ'') (start {})))) \<and>
   str ''/tmp/youtube_audio/dQw4w9WgXcQ.mp3''
     \<notin> files (snd (download_audio bad_encoder_env (str ''dQw4w9WgXcQ'') (start {}))) \<and>
   fst (download_audio bad_encoder_env (str ''dQw4w9WgXcQ'') (start {})) = None \<and>
   str ''/tmp/youtube_audio/dQw4w9WgXcQ.mp3'' \<notin> files (start {}) \<and>
   fst (transcribe_audio offline_env (Some (str ''/tmp/youtube_audio/dQw4w9WgXcQ.mp3'')) (start {}))
     = (None, None) \<and>
   extract_video_id (str ''dQw4w9WgXcQ'') = Inr (str ''dQw4w9WgXcQ'') \<and>
   fetch_captions offline_env (str ''dQw4w9WgXcQ'') = Inl (Raised ''TranscriptsDisabled'') \<and>
   fst (get_transcript offline_env (str ''dQw4w9WgXcQ'') (start {})) = (None, None)"
proof -
  have s: "first_audio_stream offline_env (str ''dQw4w9WgXcQ'') = Inr None"
    by (simp add: offline_env_def)
  have f: "Ffmpeg (str ''/tmp/youtube_audio/dQw4w9WgXcQ_temp.mp4'') (str ''/tmp/youtube_audio/dQw4w9WgXcQ.mp3'')
     \<in> set (events (snd (download_audio bad_encoder_env (str ''dQw4w9WgXcQ'') (start {}))))"
    by (simp add: bad_encoder_download)
  have o: "str ''/tmp/youtube_audio/dQw4w9WgXcQ.mp3''
     \<notin> files (snd (download_audio bad_encoder_env (str ''dQw4w9WgXcQ'') (start {})))"
    by (simp add: bad_encoder_download)
  have n: "str ''/tmp/youtube_audio/dQw4w9WgXcQ.mp3'' \<notin> files (start {})" by simp
  have c: "fetch_captions offline_env (str ''dQw4w9WgXcQ'') = Inl (Raised ''TranscriptsDisabled'')"
    by (simp add: fetch_captions_def offline_env_def)
  note t = download_audio_returns_None [of offline_env "str ''dQw4w9WgXcQ''" "start {}"]
  note u = download_audio_returns_None [of bad_encoder_env "str ''dQw4w9WgXcQ''" "start {}"]
  have d: "fst (download_audio offline_env (str ''dQw4w9WgXcQ'') (start {})) = None"
    by (rule t [THEN conjunct2, THEN conjunct1, rule_format, OF s])
  have e: "fst (download_audio bad_encoder_env (str ''dQw4w9WgXcQ'') (start {})) = None"
    by (rule u [THEN conjunct2, THEN conjunct2, THEN conjunct2, THEN conjunct1, rule_format, OF f o])
  have m: "fst (transcribe_audio offline_env (Some (str ''/tmp/youtube_audio/dQw4w9WgXcQ.mp3'')) (start {}))
     = (None, None)"
    by (rule t [THEN conjunct2, THEN conjunct2, THEN conjunct2, THEN conjunct2, THEN conjunct2,
          THEN conjunct1, rule_format, OF n])
  have g: "fst (get_transcript offline_env (str ''dQw4w9WgXcQ'') (start {})) = (None, None)"
    by (rule t [THEN conjunct2, THEN conjunct2, THEN conjunct2, THEN conjunct2, THEN conjunct2,
          THEN conjunct2, rule_format, OF bare_id_ok c d])
  show ?thesis by (intro conjI s d f o e n m bare_id_ok c g)
qed

section \<open>The rendering of the prompt\<close>

lemma occurs_in_middle: "occurs_in x (pre @ x @ post)"
  unfolding occurs_in_def by blast

lemma occurs_in_trans:
  assumes "occurs_in x y" and "occurs_in y s"
  shows "occurs_in x s"
proof -
  from assms(1) obtain a b where y: "y = a @ x @ b" unfolding occurs_in_def by blast
  from assms(2) obtain c d where s: "s = c @ y @ d" unfolding occurs_in_def by blast
  have "s = (c @ a) @ x @ (b @ d)" by (simp add: s y)
  then show ?thesis unfolding occurs_in_def by blast
qed

lemma occurs_in_join:
  "x \<in> set xs \<Longrightarrow> occurs_in x (join sep xs)"
proof (induction sep xs rule: join.induct)
  case (1 sep)
  then show ?case by simp
next
  case (2 sep y)
  then have "x = y" by simp
  then show ?case using occurs_in_middle [of x "[]" "[]"] by simp
next
  case (3 sep y z zs)
  show ?case
  proof (cases "x = y")
    case True
    then show ?thesis using occurs_in_middle [of x "[]" "sep @ join sep (z # zs)"] by simp
  next
    case False
    then have "x \<in> set (z # zs)" using 3(2) by simp
    then have "occurs_in x (join sep (z # zs))" by (rule 3(1))
    moreover have "occurs_in (join sep (z # zs)) (join sep (y # z # zs))"
      using occurs_in_middle [of "join sep (z # zs)" "y @ sep" "[]"] by simp
    ultimately show ?thesis by (rule occurs_in_trans)
  qed
qed

lemma header_lines_occur:
  "list_all (\<lambda>h. occurs_in h (user_prompt ps t lang)) (header_lines ps)"
proof -
  have in_line: "occurs_in h (str ''    '' @ h)" for h
    using occurs_in_middle [of h "str ''    ''" "[]"] by simp
  have "occurs_in h (user_prompt ps t lang)" if "h \<in> set (header_lines ps)" for h
  proof -
    have "str ''    '' @ h \<in> set
       [str ''Please provide a detailed summary of the following content in ''
          @ lang @ str ''. '',
        str ''    Structure your response as follows:'',
        [],
        str ''    '' @ [0x1F3AF] @ str '' '' @ p_title ps @ str '': Create a descriptive title'',
        [],
        str ''    '' @ [0x1F4DD] @ str '' '' @ p_overview ps @ str '' (2-3 sentences):'',
        str ''    - Provide a brief context and main purpose'',
        [],
        str ''    '' @ [0x1F511] @ str '' '' @ p_key_points ps @ str '':'',
        str ''    - Extract and explain the main arguments'',
        str ''    - Include specific examples'',
        str ''    - Highlight unique perspectives'',
        [],
        str ''    '' @ [0x1F4A1] @ str '' '' @ p_takeaways ps @ str '':'',
        str ''    - List 3-5 practical insights'',
        str ''    - Explain their significance'',
        [],
        str ''    '' @ [0x1F504] @ str '' '' @ p_context ps @ str '':'',
        str ''    - Broader context discussion'',
        str ''    - Future implications'',
        [],
        str ''    Text to summarize: '' @ t,
        [],
        str ''    Ensure the summary is comprehensive enough for someone who hasn'' @ [39]
          @ str ''t seen the original content.'']"
      using that unfolding header_lines_def by auto
    then have "occurs_in (str ''    '' @ h) (user_prompt ps t lang)"
      unfolding user_prompt_def by (rule occurs_in_join)
    with in_line show ?thesis by (rule occurs_in_trans)
  qed
  then show ?thesis by (simp add: list_all_iff)
qed

lemma header_lines_english:
  "header_lines english_prompts =
     [[0x1F3AF] @ str '' TITLE: Create a descriptive title'',
      [0x1F4DD] @ str '' OVERVIEW (2-3 sentences):'',
      [0x1F511] @ str '' KEY POINTS:'',
      [0x1F4A1] @ str '' MAIN TAKEAWAYS:'',
      [0x1F504] @ str '' CONTEXT & IMPLICATIONS:'']"
  by (simp add: header_lines_def english_prompts_def str_def)

lemma header_lines_german:
  "header_lines \<lparr>p_title = str ''TITEL'', p_overview = 220 # str ''BERBLICK'',
             p_key_points = str ''KERNPUNKTE'', p_takeaways = str ''HAUPTERKENNTNISSE'',
             p_context = str ''KONTEXT & AUSWIRKUNGEN''\<rparr> =
     [[0x1F3AF] @ str '' TITEL: Create a descriptive title'',
      [0x1F4DD] @ str '' '' @ [220] @ str ''BERBLICK (2-3 sentences):'',
      [0x1F511] @ str '' KERNPUNKTE:'',
      [0x1F4A1] @ str '' HAUPTERKENNTNISSE:'',
      [0x1F504] @ str '' KONTEXT & AUSWIRKUNGEN:'']"
  by (simp add: header_lines_def str_def)

section \<open>Properties of the summarizer\<close>

text \<open>
  C5.  In every run in which \<open>get_transcript\<close> gives no transcript, and with a
  splitter that raises on \<open>None\<close>, the button's action makes no text-generation call
  and displays no summary.
\<close>

theorem no_summary_without_transcript:
  assumes "fst (fst (get_transcript env link (start fs))) = None"
    and "split_text env 2000 200 None = Inl e"
  shows "filter is_chat (events (generate_summary env link code (start fs))) = [] \<and>
         filter is_markdown (events (generate_summary env link code (start fs))) = []"
proof (cases "link = []")
  case True
  then show ?thesis by (simp add: generate_summary_def emit_def)
next
  case False
  obtain l w1 where g: "get_transcript env link (start fs) = ((None, l), w1)"
    using assms(1) by (cases "get_transcript env link (start fs)") auto
  have gs: "generate_summary env link code (start fs) = emit (ShowError e) w1"
    using False g summarize_None [OF assms(2)]
    by (simp add: generate_summary_def)
  have "list_all (\<lambda>ev. \<not> is_chat ev \<and> \<not> is_markdown ev) (events w1)"
    using get_transcript_events [of env link "start fs"] g
    by (auto simp: list_all_iff)
  then have "filter is_chat (events w1) = []" "filter is_markdown (events w1) = []"
    by (simp_all add: filter_empty_conv list_all_iff)
  then show ?thesis by (simp add: gs emit_def)
qed

text \<open>
  With no service reachable, the run makes the download call and shows the splitter's
  error; nothing else happens.
\<close>

theorem no_summary_without_transcript_witness:
  "fst (fst (get_transcript offline_env (str ''dQw4w9WgXcQ'') (start {}))) = None \<and>
   split_text offline_env 2000 200 None = Inl (Raised ''TypeError'') \<and>
   filter is_chat (events (generate_summary offline_env (str ''dQw4w9WgXcQ'') (str ''en'') (start {}))) = [] \<and>
   filter is_markdown (events (generate_summary offline_env (str ''dQw4w9WgXcQ'') (str ''en'') (start {}))) = [] \<and>
   events (generate_summary offline_env (str ''dQw4w9WgXcQ'') (str ''en'') (start {}))
     = [DownloadAudio (str ''dQw4w9WgXcQ''), ShowError (Raised ''TypeError'')]"
proof -
  have g: "fst (fst (get_transcript offline_env (str ''dQw4w9WgXcQ'') (start {}))) = None"
    by (simp add: offline_run)
  have s: "split_text offline_env 2000 200 None = Inl (Raised ''TypeError'')"
    by (simp add: offline_env_def)
  have ne: "str ''dQw4w9WgXcQ'' \<noteq> []" by (simp add: str_def)
  have e: "events (generate_summary offline_env (str ''dQw4w9WgXcQ'') (str ''en'') (start {}))
     = [DownloadAudio (str ''dQw4w9WgXcQ''), ShowError (Raised ''TypeError'')]"
    using ne
    by (simp add: generate_summary_def offline_run summarize_None [OF s] emit_def)
  note t = no_summary_without_transcript [OF g s, of "str ''en''"]
  show ?thesis by (intro conjI g s t [THEN conjunct1] t [THEN conjunct2] e)
qed

text \<open>
  C6.  For every transcript, whatever its length, the splitter is the one built with
  chunk size 2000 and overlap 200, and the one request made to the text-generation
  backend carries, as the text to summarize, the first at most four chunks of the
  split joined by spaces.
\<close>

theorem summarize_first_four_chunks:
  assumes "split_text env 2000 200 (Some transcript) = Inr texts"
  shows "events (snd (summarize_with_langchain_and_openai env (Some transcript) lang model_name w))
           = events w @
             [Chat \<lparr>model = model_name,
                    messages =
                      [(str ''system'', system_prompt lang),
                       (str ''user'',
                        snd (create_summary_prompt (join (str '' '') (take 4 texts)) lang))],
                    temperature = 7 / 10,
                    max_tokens = 4000\<rparr>] \<and>
         length (take 4 texts) \<le> 4"
  using assms
  by (simp add: summarize_with_langchain_and_openai_def Let_def emit_def create_summary_prompt_def
        split: sum.splits)

text \<open>Six chunks: the request has the first four.\<close>

theorem summarize_first_four_chunks_witness:
  "split_text chunks_env 2000 200 (Some (str ''a b c d e f''))
     = Inr [str ''a'', str ''b'', str ''c'', str ''d'', str ''e'', str ''f''] \<and>
   events (snd (summarize_with_langchain_and_openai chunks_env (Some (str ''a b c d e f''))
                  (str ''en'') (str ''llama-3.1-8b-instant'') (start {})))
     = [Chat \<lparr>model = str ''llama-3.1-8b-instant'',
              messages =
                [(str ''system'', system_prompt (str ''en'')),
                 (str ''user'', user_prompt english_prompts (str ''a b c d'') (str ''en''))],
              temperature = 7 / 10,
              max_tokens = 4000\<rparr>]"
proof -
  have s: "split_text chunks_env 2000 200 (Some (str ''a b c d e f''))
     = Inr [str ''a'', str ''b'', str ''c'', str ''d'', str ''e'', str ''f'']"
    by (simp add: chunks_env_def)
  have p: "snd (create_summary_prompt (str ''a b c d'') (str ''en''))
           = user_prompt english_prompts (str ''a b c d'') (str ''en'')"
    by (simp add: create_summary_prompt_def language_prompts_en)
  show ?thesis
    using summarize_first_four_chunks [OF s, of "str ''en''" "str ''llama-3.1-8b-instant''" "start {}"]
    by (simp add: s join_abcd p del: take_Cons_numeral)
qed

text \<open>
  C7.  For every target language code, the user prompt of \<open>create_summary_prompt\<close>
  contains the five section header lines written with the headers the mapping gives for
  that code when the code is in the mapping, and written with the English headers when
  it is not; the Spanish code is not in the mapping.
\<close>

theorem create_summary_prompt_headers:
  "(\<forall>ps. map_of language_prompts lang = Some ps \<longrightarrow>
      create_summary_prompt text_to_summarize lang
        = (system_prompt lang, user_prompt ps text_to_summarize lang) \<and>
      list_all (\<lambda>h. occurs_in h (snd (create_summary_prompt text_to_summarize lang)))
        (header_lines ps)) \<and>
   (map_of language_prompts lang = None \<longrightarrow>
      create_summary_prompt text_to_summarize lang
        = (system_prompt lang, user_prompt english_prompts text_to_summarize lang) \<and>
      list_all (\<lambda>h. occurs_in h (snd (create_summary_prompt text_to_summarize lang)))
        (header_lines english_prompts)) \<and>
   map_of language_prompts (str ''es'') = None"
proof (intro conjI allI impI)
  fix ps assume "map_of language_prompts lang = Some ps"
  then show c: "create_summary_prompt text_to_summarize lang
        = (system_prompt lang, user_prompt ps text_to_summarize lang)"
    by (simp add: create_summary_prompt_def)
  show "list_all (\<lambda>h. occurs_in h (snd (create_summary_prompt text_to_summarize lang)))
        (header_lines ps)"
    using header_lines_occur [of ps text_to_summarize lang] by (simp add: c)
next
  assume "map_of language_prompts lang = None"
  then show c: "create_summary_prompt text_to_summarize lang
        = (system_prompt lang, user_prompt english_prompts text_to_summarize lang)"
    by (simp add: create_summary_prompt_def language_prompts_en)
  show "list_all (\<lambda>h. occurs_in h (snd (create_summary_prompt text_to_summarize lang)))
        (header_lines english_prompts)"
    using header_lines_occur [of english_prompts text_to_summarize lang] by (simp add: c)
next
  show "map_of language_prompts (str ''es'') = None"
    by (simp add: language_prompts_def str_def)
qed

text \<open>
  The prompt for \<open>de\<close> contains the German header lines, and the prompt for \<open>es\<close> the
  English ones.
\<close>

theorem create_summary_prompt_headers_witness:
  "map_of language_prompts (str ''de'')
     = Some \<lparr>p_title = str ''TITEL'', p_overview = 220 # str ''BERBLICK'',
             p_key_points = str ''KERNPUNKTE'', p_takeaways = str ''HAUPTERKENNTNISSE'',
             p_context = str ''KONTEXT & AUSWIRKUNGEN''\<rparr> \<and>
   list_all (\<lambda>h. occurs_in h (snd (create_summary_prompt (str ''text'') (str ''de''))))
     [[0x1F3AF] @ str '' TITEL: Create a descriptive title'',
      [0x1F4DD] @ str '' '' @ [220] @ str ''BERBLICK (2-3 sentences):'',
      [0x1F511] @ str '' KERNPUNKTE:'',
      [0x1F4A1] @ str '' HAUPTERKENNTNISSE:'',
      [0x1F504] @ str '' KONTEXT & AUSWIRKUNGEN:''] \<and>
   map_of language_prompts (str ''es'') = None \<and>
   list_all (\<lambda>h. occurs_in h (snd (create_summary_prompt (str ''text'') (str ''es''))))
     [[0x1F3AF] @ str '' TITLE: Create a descriptive title'',
      [0x1F4DD] @ str '' OVERVIEW (2-3 sentences):'',
      [0x1F511] @ str '' KEY POINTS:'',
      [0x1F4A1] @ str '' MAIN TAKEAWAYS:'',
      [0x1F504] @ str '' CONTEXT & IMPLICATIONS:'']"
proof -
  have de: "map_of language_prompts (str ''de'')
     = Some \<lparr>p_title = str ''TITEL'', p_overview = 220 # str ''BERBLICK'',
             p_key_points = str ''KERNPUNKTE'', p_takeaways = str ''HAUPTERKENNTNISSE'',
             p_context = str ''KONTEXT & AUSWIRKUNGEN''\<rparr>"
    by (simp add: language_prompts_def str_def)
  have es: "map_of language_prompts (str ''es'') = None"
    by (simp add: language_prompts_def str_def)
  note t = create_summary_prompt_headers [of _ "str ''text''"]
  note d = t [THEN conjunct1, rule_format, OF de, THEN conjunct2, unfolded header_lines_german]
  note e = t [THEN conjunct2, THEN conjunct1, rule_format, OF es, THEN conjunct2,
              unfolded header_lines_english]
  show ?thesis by (intro conjI de es d e)
qed

end
